theory Spec2Isabelle
  imports Main "HOL-Library.Word"
begin

unbundle bit_operations_syntax

section \<open>Machine integers\<close>

text \<open>
  \<open>uint8_t\<close> and \<open>uint16_t\<close> are words of 8 and 16 bits. C++ computes every arithmetic and
  bitwise expression on them in \<open>int\<close> or \<open>unsigned int\<close> (32 bits) and truncates on the
  store back; the 32-bit intermediate is written out (\<open>u32\<close>) wherever the source has one.
\<close>

type_synonym u8 = "8 word"
type_synonym u16 = "16 word"
type_synonym u32 = "32 word"

section \<open>The declarations of gpr\_cpu.h\<close>

text \<open>
  The header \<open>gpr_cpu.h\<close> is not among the sources. The constants it declares and that
  \<open>gpr_cpu.cpp\<close> uses are parameters of the model: the capacity \<open>MEMORY_SIZE\<close> of the
  memory and the three masks of the flags register. The width of the flags register is
  not known either, so it is the type parameter \<open>'fl\<close>, instantiated by a word type.
\<close>

record 'fl gpr_cpu_h =
  MEMORY_SIZE :: nat
  FLAG_ZERO :: 'fl
  FLAG_CARRY :: 'fl
  FLAG_NEGATIVE :: 'fl

text \<open>
  Modelled from the spec: the flags register holds "three independent bits" (Zero, Carry,
  Negative); the masks of \<open>gpr_cpu.h\<close> are missing. Independence is all the model asks of
  them: no mask is empty and no two masks share a bit.
\<close>

definition flags_independent :: "('f::len) word gpr_cpu_h \<Rightarrow> bool" where
  "flags_independent h =
     (FLAG_ZERO h \<noteq> 0 \<and> FLAG_CARRY h \<noteq> 0 \<and> FLAG_NEGATIVE h \<noteq> 0 \<and>
      FLAG_ZERO h AND FLAG_CARRY h = 0 \<and>
      FLAG_ZERO h AND FLAG_NEGATIVE h = 0 \<and>
      FLAG_CARRY h AND FLAG_NEGATIVE h = 0)"

text \<open>
  Modelled from the spec: the enumeration \<open>Opcode\<close> of \<open>gpr_cpu.h\<close> is missing. Its values
  are numbered as the mnemonic table of the spec lists them, HALT = 0 up to NOP = 15,
  which is the numbering of \<open>getOpcode\<close> in \<open>assembler.cpp\<close>. The names AND, OR, XOR and
  NOT are the bit operations of HOL, so these four carry a suffix.
\<close>

datatype Opcode =
  HALT | MOVI | MOV | LOAD | STORE | ADD | SUB | AND_op | OR_op | XOR_op | NOT_op
  | SHL | SHR | JMP | JZ | NOP

text \<open>\<open>static_cast<Opcode>(op)\<close>; a value that names no enumerator takes the \<open>default\<close>
  label of the switch, which shares the body of NOP.\<close>

definition to_Opcode :: "u8 \<Rightarrow> Opcode" where
  "to_Opcode op =
     (if op = 0 then HALT else if op = 1 then MOVI else if op = 2 then MOV
      else if op = 3 then LOAD else if op = 4 then STORE else if op = 5 then ADD
      else if op = 6 then SUB else if op = 7 then AND_op else if op = 8 then OR_op
      else if op = 9 then XOR_op else if op = 10 then NOT_op else if op = 11 then SHL
      else if op = 12 then SHR else if op = 13 then JMP else if op = 14 then JZ
      else NOP)"

text \<open>\<open>struct CPUState\<close>: the register file \<open>R[8]\<close> (read and written only at the indices
  0..7 that \<open>decodeRd\<close> and \<open>decodeRs\<close> return), \<open>PC\<close>, \<open>FLAGS\<close> and \<open>halted\<close>.\<close>

record 'fl CPUState =
  R :: "nat \<Rightarrow> u16"
  PC :: u16
  FLAGS :: 'fl
  halted :: bool

section \<open>Bus\<close>

text \<open>
  \<open>Bus::memory\<close> is an array of \<open>MEMORY_SIZE\<close> words. The model is a function from
  indices to words; every access of the source is guarded by the capacity, and the
  guard is part of the model, so a cell at or beyond the capacity is never read or
  written.
\<close>

type_synonym memory = "nat \<Rightarrow> u16"

definition Bus_read :: "'fl gpr_cpu_h \<Rightarrow> memory \<Rightarrow> u16 \<Rightarrow> u16" where
  "Bus_read h mem address =
     (if unat address < MEMORY_SIZE h then mem (unat address) else 0)"

definition Bus_write :: "'fl gpr_cpu_h \<Rightarrow> memory \<Rightarrow> u16 \<Rightarrow> u16 \<Rightarrow> memory" where
  "Bus_write h mem address v =
     (if unat address < MEMORY_SIZE h then mem(unat address := v) else mem)"

section \<open>Decode helpers\<close>

definition decodeOpcode :: "u16 \<Rightarrow> u8" where
  "decodeOpcode inst = ucast (drop_bit 12 (ucast inst :: u32) AND 0xF)"

definition decodeRd :: "u16 \<Rightarrow> u8" where
  "decodeRd inst = ucast (drop_bit 9 (ucast inst :: u32) AND 0x7)"

definition decodeRs :: "u16 \<Rightarrow> u8" where
  "decodeRs inst = ucast (drop_bit 6 (ucast inst :: u32) AND 0x7)"

definition decodeImm9 :: "u16 \<Rightarrow> u16" where
  "decodeImm9 inst = ucast ((ucast inst :: u32) AND 0x1FF)"

section \<open>Flag updates\<close>

text \<open>
  The two statements every flag update of the source is made of:
  \<open>state.FLAGS &= ~(FLAG_ZERO | FLAG_CARRY | FLAG_NEGATIVE)\<close> and
  \<open>if (c) state.FLAGS |= m\<close>. \<open>setResultFlags\<close>, \<open>setAddFlags\<close>, \<open>setSubFlags\<close> and the
  bodies of SHL and SHR apply them in the order of the source: clear, Zero, Negative and,
  where there is one, Carry. A test \<open>x & 0x8000u\<close> is computed in 32 bits; the sum \<open>a + b\<close>
  of \<open>setAddFlags\<close> is an \<open>int\<close>, which two 16-bit values cannot overflow.
\<close>

definition clear_flags :: "('f::len) word gpr_cpu_h \<Rightarrow> 'f word CPUState \<Rightarrow> 'f word CPUState" where
  "clear_flags h s =
     s\<lparr>FLAGS := FLAGS s AND NOT (FLAG_ZERO h OR FLAG_CARRY h OR FLAG_NEGATIVE h)\<rparr>"

definition set_flag_if :: "bool \<Rightarrow> ('f::len) word \<Rightarrow> 'f word CPUState \<Rightarrow> 'f word CPUState" where
  "set_flag_if c m s = (if c then s\<lparr>FLAGS := FLAGS s OR m\<rparr> else s)"

definition setResultFlags :: "('f::len) word gpr_cpu_h \<Rightarrow> u16 \<Rightarrow> 'f word CPUState \<Rightarrow> 'f word CPUState" where
  "setResultFlags h result s =
     set_flag_if ((ucast result :: u32) AND 0x8000 \<noteq> 0) (FLAG_NEGATIVE h)
       (set_flag_if (result = 0) (FLAG_ZERO h)
         (clear_flags h s))"

definition setAddFlags :: "('f::len) word gpr_cpu_h \<Rightarrow> u16 \<Rightarrow> u16 \<Rightarrow> u16 \<Rightarrow> 'f word CPUState \<Rightarrow> 'f word CPUState" where
  "setAddFlags h a b result s =
     set_flag_if ((0xFFFF :: u32) < ucast a + ucast b) (FLAG_CARRY h)
       (set_flag_if ((ucast result :: u32) AND 0x8000 \<noteq> 0) (FLAG_NEGATIVE h)
         (set_flag_if (result = 0) (FLAG_ZERO h)
           (clear_flags h s)))"

definition setSubFlags :: "('f::len) word gpr_cpu_h \<Rightarrow> u16 \<Rightarrow> u16 \<Rightarrow> u16 \<Rightarrow> 'f word CPUState \<Rightarrow> 'f word CPUState" where
  "setSubFlags h a b result s =
     set_flag_if (b \<le> a) (FLAG_CARRY h)
       (set_flag_if ((ucast result :: u32) AND 0x8000 \<noteq> 0) (FLAG_NEGATIVE h)
         (set_flag_if (result = 0) (FLAG_ZERO h)
           (clear_flags h s)))"

section \<open>Reset, execute, step, run\<close>

definition reset :: "('f::len) word CPUState" where
  "reset = \<lparr>R = (\<lambda>i. 0), PC = 0, FLAGS = 0, halted = False\<rparr>"

text \<open>
  \<open>GPRCPU::execute\<close> acts on the CPU state and, through the bus, on the memory; the model
  passes both and returns both. The output of the trace (\<open>tracing\<close>) changes neither
  and is left out.
\<close>

definition execute ::
  "('f::len) word gpr_cpu_h \<Rightarrow> u16 \<Rightarrow> 'f word CPUState \<times> memory \<Rightarrow> 'f word CPUState \<times> memory" where
  "execute h instruction sm =
     (let s = fst sm; mem = snd sm;
          op = decodeOpcode instruction;
          rd = unat (decodeRd instruction);
          rs = unat (decodeRs instruction);
          imm9 = decodeImm9 instruction
      in case to_Opcode op of
        HALT \<Rightarrow> (s\<lparr>halted := True\<rparr>, mem)
      | MOVI \<Rightarrow> (setResultFlags h imm9 (s\<lparr>R := (R s)(rd := imm9)\<rparr>), mem)
      | MOV \<Rightarrow> (setResultFlags h (R s rs) (s\<lparr>R := (R s)(rd := R s rs)\<rparr>), mem)
      | LOAD \<Rightarrow>
          (let addr = R s rs; v = Bus_read h mem addr
           in (setResultFlags h v (s\<lparr>R := (R s)(rd := v)\<rparr>), mem))
      | STORE \<Rightarrow> (let addr = R s rs in (s, Bus_write h mem addr (R s rd)))
      | ADD \<Rightarrow>
          (let a = R s rd; b = R s rs; result = a + b
           in (setAddFlags h a b result (s\<lparr>R := (R s)(rd := result)\<rparr>), mem))
      | SUB \<Rightarrow>
          (let a = R s rd; b = R s rs; result = a - b
           in (setSubFlags h a b result (s\<lparr>R := (R s)(rd := result)\<rparr>), mem))
      | AND_op \<Rightarrow>
          (let v = R s rd AND R s rs
           in (setResultFlags h v (s\<lparr>R := (R s)(rd := v)\<rparr>), mem))
      | OR_op \<Rightarrow>
          (let v = R s rd OR R s rs
           in (setResultFlags h v (s\<lparr>R := (R s)(rd := v)\<rparr>), mem))
      | XOR_op \<Rightarrow>
          (let v = R s rd XOR R s rs
           in (setResultFlags h v (s\<lparr>R := (R s)(rd := v)\<rparr>), mem))
      | NOT_op \<Rightarrow>
          (let v = NOT (R s rs)
           in (setResultFlags h v (s\<lparr>R := (R s)(rd := v)\<rparr>), mem))
      | SHL \<Rightarrow>
          (let val = R s rd; v = push_bit 1 val
           in (set_flag_if ((ucast val :: u32) AND 0x8000 \<noteq> 0) (FLAG_CARRY h)
                 (set_flag_if ((ucast v :: u32) AND 0x8000 \<noteq> 0) (FLAG_NEGATIVE h)
                   (set_flag_if (v = 0) (FLAG_ZERO h)
                     (clear_flags h (s\<lparr>R := (R s)(rd := v)\<rparr>)))), mem))
      | SHR \<Rightarrow>
          (let val = R s rd; v = drop_bit 1 val
           in (set_flag_if ((ucast val :: u32) AND 1 \<noteq> 0) (FLAG_CARRY h)
                 (set_flag_if ((ucast v :: u32) AND 0x8000 \<noteq> 0) (FLAG_NEGATIVE h)
                   (set_flag_if (v = 0) (FLAG_ZERO h)
                     (clear_flags h (s\<lparr>R := (R s)(rd := v)\<rparr>)))), mem))
      | JMP \<Rightarrow> (s\<lparr>PC := R s rs\<rparr>, mem)
      | JZ \<Rightarrow> (if FLAGS s AND FLAG_ZERO h \<noteq> 0 then (s\<lparr>PC := R s rs\<rparr>, mem) else (s, mem))
      | NOP \<Rightarrow> (s, mem))"

text \<open>\<open>GPRCPU::step\<close>: the returned boolean, and the state and memory after the call.\<close>

definition step ::
  "('f::len) word gpr_cpu_h \<Rightarrow> 'f word CPUState \<times> memory \<Rightarrow> bool \<times> 'f word CPUState \<times> memory" where
  "step h sm =
     (let s = fst sm; mem = snd sm
      in if halted s then (False, sm)
         else
           (let instruction = Bus_read h mem (PC s);
                s1 = s\<lparr>PC := PC s + 1\<rparr>;
                sm2 = execute h instruction (s1, mem)
            in (\<not> halted (fst sm2), sm2)))"

text \<open>\<open>GPRCPU::run\<close> loops until \<open>step\<close> returns false, which a program without a reachable
  HALT never does: the result is an option, \<open>None\<close> when the loop does not end.\<close>

partial_function (option) run_from ::
  "('f::len) word gpr_cpu_h \<Rightarrow> nat \<Rightarrow> 'f word CPUState \<times> memory \<Rightarrow> (nat \<times> 'f word CPUState \<times> memory) option" where
  "run_from h cycles sm =
     (if fst (step h sm) then run_from h (cycles + 1) (snd (step h sm))
      else Some (cycles, snd (step h sm)))"

definition run ::
  "('f::len) word gpr_cpu_h \<Rightarrow> 'f word CPUState \<times> memory \<Rightarrow> (nat \<times> 'f word CPUState \<times> memory) option" where
  "run h sm = run_from h 0 sm"

section \<open>The C and C++ library functions the assembler calls\<close>

text \<open>
  The assembler stops in three ways that are not a returned \<open>AssembleResult\<close>:
  \<open>std::stoul\<close> and \<open>std::stoi\<close> throw \<open>std::invalid_argument\<close> (no digits to convert) or
  \<open>std::out_of_range\<close>, and nothing in the repository catches either; and a store through
  the raw pointer \<open>mem\<close> at an index that is not below \<open>memSize\<close> is outside the buffer.
  Each is a value of the model.
\<close>

datatype fault = invalid_argument | out_of_range | out_of_bounds_store nat

text \<open>\<open>isspace\<close> in the C locale: space and the five characters from tab to carriage return.\<close>

definition isspace :: "char \<Rightarrow> bool" where
  "isspace c = ((of_char c :: nat) = 32 \<or> (9 \<le> (of_char c :: nat) \<and> (of_char c :: nat) \<le> 13))"

text \<open>The value of a character as a digit (\<open>0-9\<close>, then the letters of either case from 10),
  if it has one.\<close>

definition digit_value :: "char \<Rightarrow> int option" where
  "digit_value c =
     (let n = (of_char c :: int)
      in if 48 \<le> n \<and> n \<le> 57 then Some (n - 48)
         else if 97 \<le> n \<and> n \<le> 122 then Some (n - 97 + 10)
         else if 65 \<le> n \<and> n \<le> 90 then Some (n - 65 + 10)
         else None)"

definition is_digit :: "int \<Rightarrow> char \<Rightarrow> bool" where
  "is_digit base c = (case digit_value c of None \<Rightarrow> False | Some d \<Rightarrow> d < base)"

text \<open>The longest prefix of digits of the base, and the number it denotes.\<close>

definition digits :: "int \<Rightarrow> string \<Rightarrow> string" where
  "digits base s = takeWhile (is_digit base) s"

definition digits_value :: "int \<Rightarrow> string \<Rightarrow> int" where
  "digits_value base ds = foldl (\<lambda>acc c. acc * base + the (digit_value c)) 0 ds"

text \<open>
  The numbers of the subject sequence are unbounded integers. The subject sequence of \<open>strtoul\<close> and \<open>strtol\<close>: leading white space is skipped, then an
  optional sign, then, for base 0, the prefix that selects the base (\<open>0x\<close> or \<open>0X\<close> before
  a hexadecimal digit: 16; a leading \<open>0\<close>: 8; otherwise 10), then the longest run of digits
  of that base. The result is the sign, the base and the digits; no digits means no
  conversion. Characters after the digits are ignored (the callers never look at \<open>idx\<close>).
\<close>

definition skip_sign :: "string \<Rightarrow> bool \<times> string" where
  "skip_sign s =
     (case s of
        [] \<Rightarrow> (False, [])
      | c # cs \<Rightarrow> if c = CHR ''-'' then (True, cs) else if c = CHR ''+'' then (False, cs) else (False, s))"

definition has_hex_prefix :: "string \<Rightarrow> bool" where
  "has_hex_prefix s =
     (case s of
        z # x # d # _ \<Rightarrow> z = CHR ''0'' \<and> (x = CHR ''x'' \<or> x = CHR ''X'') \<and> is_digit 16 d
      | _ \<Rightarrow> False)"

definition subject :: "int \<Rightarrow> string \<Rightarrow> bool \<times> int \<times> string" where
  "subject base s =
     (let s1 = dropWhile isspace s;
          neg = fst (skip_sign s1);
          s2 = snd (skip_sign s1)
      in if (base = 0 \<or> base = 16) \<and> has_hex_prefix s2 then (neg, 16, digits 16 (drop 2 s2))
         else if base = 0 then
           (if s2 \<noteq> [] \<and> hd s2 = CHR ''0'' then (neg, 8, digits 8 s2) else (neg, 10, digits 10 s2))
         else (neg, base, digits base s2))"

text \<open>
  \<open>std::stoul(s, &idx, base)\<close> where \<open>unsigned long\<close> has 64 bits: a magnitude above
  \<open>ULONG_MAX\<close> is out of range, and a minus sign negates the magnitude modulo \<open>2^64\<close>, as
  \<open>strtoul\<close> does.
\<close>

definition ULONG_MAX :: int where
  "ULONG_MAX = 2 ^ 64 - 1"

definition stoul :: "string \<Rightarrow> int \<Rightarrow> fault + int" where
  "stoul s base =
     (let neg = fst (subject base s);
          b = fst (snd (subject base s));
          ds = snd (snd (subject base s))
      in if ds = [] then Inl invalid_argument
         else if ULONG_MAX < digits_value b ds then Inl out_of_range
         else if neg then Inr ((2 ^ 64 - digits_value b ds) mod 2 ^ 64)
         else Inr (digits_value b ds))"

text \<open>\<open>std::stoi(s, nullptr, base)\<close> where \<open>int\<close> has 32 bits.\<close>

definition stoi :: "string \<Rightarrow> int \<Rightarrow> fault + int" where
  "stoi s base =
     (let neg = fst (subject base s);
          b = fst (snd (subject base s));
          ds = snd (snd (subject base s));
          v = (if neg then - digits_value b ds else digits_value b ds)
      in if ds = [] then Inl invalid_argument
         else if v < - (2 ^ 31) \<or> 2 ^ 31 - 1 < v then Inl out_of_range
         else Inr v)"

text \<open>\<open>std::string::find\<close>, \<open>find_first_not_of\<close> and \<open>find_last_not_of\<close>: the index of the first
  (the last) character with a property, \<open>None\<close> for \<open>npos\<close>.\<close>

fun find_first :: "(char \<Rightarrow> bool) \<Rightarrow> string \<Rightarrow> nat option" where
  "find_first P [] = None"
| "find_first P (c # cs) = (if P c then Some 0 else map_option Suc (find_first P cs))"

definition find_last :: "(char \<Rightarrow> bool) \<Rightarrow> string \<Rightarrow> nat option" where
  "find_last P s = map_option (\<lambda>k. length s - 1 - k) (find_first P (rev s))"

text \<open>\<open>s.substr(pos, n)\<close> for \<open>pos \<le> s.size()\<close>, which holds at every call of the source.\<close>

definition substr :: "string \<Rightarrow> nat \<Rightarrow> nat \<Rightarrow> string" where
  "substr s pos n = take n (drop pos s)"

text \<open>The lines \<open>std::getline\<close> returns, call after call, until it fails: the text between
  newlines, and no empty last line after a final newline.\<close>

fun getline_loop :: "string \<Rightarrow> string \<Rightarrow> string list" where
  "getline_loop [] cur = (if cur = [] then [] else [cur])"
| "getline_loop (c # cs) cur =
     (if c = CHR 0x0A then cur # getline_loop cs [] else getline_loop cs (cur @ [c]))"

definition getlines :: "string \<Rightarrow> string list" where
  "getlines source = getline_loop source []"

section \<open>Assembler: helpers\<close>

definition getOpcode :: "string \<Rightarrow> int" where
  "getOpcode mnem =
     (if mnem = ''HALT'' then 0 else if mnem = ''MOVI'' then 1 else if mnem = ''MOV'' then 2
      else if mnem = ''LOAD'' then 3 else if mnem = ''STORE'' then 4
      else if mnem = ''ADD'' then 5 else if mnem = ''SUB'' then 6
      else if mnem = ''AND'' then 7 else if mnem = ''OR'' then 8
      else if mnem = ''XOR'' then 9 else if mnem = ''NOT'' then 10
      else if mnem = ''SHL'' then 11 else if mnem = ''SHR'' then 12
      else if mnem = ''JMP'' then 13 else if mnem = ''JZ'' then 14
      else if mnem = ''NOP'' then 15 else - 1)"

definition toUpperChar :: "char \<Rightarrow> char" where
  "toUpperChar c =
     (if (97 :: nat) \<le> of_char c \<and> (of_char c :: nat) \<le> 122
      then char_of ((of_char c :: nat) - 32) else c)"

definition toUpper :: "string \<Rightarrow> string" where
  "toUpper s = map toUpperChar s"

definition parseNumber :: "string \<Rightarrow> fault + u16" where
  "parseNumber s =
     (case stoul s 0 of
        Inl e \<Rightarrow> Inl e
      | Inr v \<Rightarrow> Inr (ucast ((word_of_int v :: 64 word) AND 0xFFFF)))"

text \<open>The loop of \<open>parseReg\<close> that removes enclosing parentheses.\<close>

function strip_parens :: "string \<Rightarrow> string" where
  "strip_parens t =
     (if 2 \<le> length t \<and> t ! 0 = CHR ''('' \<and> last t = CHR '')''
      then strip_parens (substr t 1 (length t - 2)) else t)"
  by pat_completeness auto
termination
  by (relation "measure length") (auto simp: substr_def)

text \<open>\<open>parseReg\<close> returns a boolean and, when true, the register through \<open>r\<close>:
  \<open>Inr (Some r)\<close> for true, \<open>Inr None\<close> for false, \<open>Inl\<close> when \<open>std::stoi\<close> throws.\<close>

definition parseReg :: "string \<Rightarrow> fault + u8 option" where
  "parseReg s =
     (let t = strip_parens s
      in if length t < 2 \<or> (t ! 0 \<noteq> CHR ''R'' \<and> t ! 0 \<noteq> CHR ''r'') then Inr None
         else case stoi (substr t 1 (length t - 1)) 10 of
                Inl e \<Rightarrow> Inl e
              | Inr n \<Rightarrow> if n < 0 \<or> 7 < n then Inr None else Inr (Some (word_of_int n)))"

definition is_blank :: "char \<Rightarrow> bool" where
  "is_blank c = (c = CHR '' '' \<or> c = CHR 0x09 \<or> c = CHR 0x0D \<or> c = CHR 0x0A)"

definition trim :: "string \<Rightarrow> string" where
  "trim s =
     (case find_first (\<lambda>c. \<not> is_blank c) s of
        None \<Rightarrow> []
      | Some a \<Rightarrow>
          (let b = the (find_last (\<lambda>c. \<not> is_blank c) s) in substr s a (b - a + 1)))"

definition stripComment :: "string \<Rightarrow> string" where
  "stripComment line =
     (case find_first (\<lambda>c. c = CHR '';'') line of
        Some p \<Rightarrow> trim (substr line 0 p)
      | None \<Rightarrow> trim line)"

text \<open>The loop of \<open>tokenize\<close> over the characters of the line and one final space; the state
  is the tokens so far and the token being read.\<close>

fun tokenize_loop :: "string \<Rightarrow> string list \<Rightarrow> string \<Rightarrow> string list \<times> string" where
  "tokenize_loop [] tokens cur = (tokens, cur)"
| "tokenize_loop (c # cs) tokens cur =
     (if is_blank c \<or> c = CHR '',''
      then (if cur \<noteq> [] then tokenize_loop cs (tokens @ [cur]) [] else tokenize_loop cs tokens cur)
      else tokenize_loop cs tokens (cur @ [c]))"

definition tokenize :: "string \<Rightarrow> string list" where
  "tokenize line =
     (let r = tokenize_loop (line @ [CHR '' '']) [] []
      in if snd r \<noteq> [] then fst r @ [snd r] else fst r)"

definition encMOVI :: "u8 \<Rightarrow> u16 \<Rightarrow> u16" where
  "encMOVI rd imm9 =
     ucast (push_bit 12 (1 :: u32) OR push_bit 9 ((ucast rd :: u32) AND 7)
            OR ((ucast imm9 :: u32) AND 0x1FF))"

definition encRR :: "u8 \<Rightarrow> u8 \<Rightarrow> u8 \<Rightarrow> u16" where
  "encRR op rd rs =
     ucast (push_bit 12 ((ucast op :: u32) AND 15) OR push_bit 9 ((ucast rd :: u32) AND 7)
            OR push_bit 6 ((ucast rs :: u32) AND 7))"

declare strip_parens.simps [simp del]

section \<open>Assembler: the two passes\<close>

text \<open>
  \<open>struct AssembleResult\<close> of \<open>assembler.h\<close> (the header is not among the sources; the
  fields are the ones \<open>assemble\<close> sets by name).
\<close>

record AssembleResult =
  ok :: bool
  error :: string
  lineNum :: nat

text \<open>\<open>res.ok = false; res.error = msg; res.lineNum = lineNum;\<close> before each \<open>return res\<close>.\<close>

definition failure :: "string \<Rightarrow> nat \<Rightarrow> AssembleResult" where
  "failure msg n = \<lparr>ok = False, error = msg, lineNum = n\<rparr>"

text \<open>
  What the body of a loop over the lines does with one line: it goes on to the next line
  with a new state (\<open>continue\<close>, or the end of the body), it returns a failed result
  (\<open>Return\<close>, with the state at the \<open>return\<close> statement), or it stops by a fault.
\<close>

datatype 's flow = is_Continue: Continue 's | is_Return: Return AssembleResult 's | is_Raise: Raise fault

type_synonym labels = "string \<rightharpoonup> u16"

text \<open>The body of the loop of the first pass (\<open>lineNo\<close> is \<open>lineNum\<close> after \<open>++lineNum\<close>).\<close>

definition pass1_line :: "nat \<Rightarrow> string \<Rightarrow> labels \<times> u16 \<Rightarrow> (labels \<times> u16) flow" where
  "pass1_line lineNo line st =
     (let labels = fst st; pc = snd st; rest = stripComment line
      in if rest = [] then Continue st
         else if last rest = CHR '':'' then
           (let name = trim (substr rest 0 (length rest - 1))
            in if name \<noteq> [] then Continue (labels(toUpper name \<mapsto> pc), pc) else Continue st)
         else
           (let tok = tokenize rest
            in if tok = [] then Continue st
               else
                 (let cmd = toUpper (tok ! 0)
                  in if cmd = ''.ORG'' then
                       (if length tok < 2 then Return (failure ''.ORG requires address'' lineNo) st
                        else case parseNumber (tok ! 1) of
                               Inl e \<Rightarrow> Raise e
                             | Inr v \<Rightarrow> Continue (labels, v))
                     else if cmd = ''.WORD'' then
                       (if length tok = 1 then Return (failure ''.WORD requires value'' lineNo) st
                        else if length tok = 2 then Continue (labels, pc + 1)
                        else Continue st)
                     else if 0 \<le> getOpcode cmd then Continue (labels, pc + 1)
                     else Return (failure (''Unknown: '' @ cmd) lineNo) st)))"

fun pass1 :: "string list \<Rightarrow> nat \<Rightarrow> labels \<times> u16 \<Rightarrow> (labels \<times> u16) flow" where
  "pass1 [] lineNo st = Continue st"
| "pass1 (line # rest) lineNo st =
     (case pass1_line (Suc lineNo) line st of
        Continue st' \<Rightarrow> pass1 rest (Suc lineNo) st'
      | Return r st' \<Rightarrow> Return r st'
      | Raise e \<Rightarrow> Raise e)"

text \<open>\<open>labels.count(toUpper(arg)) ? labels[toUpper(arg)] : parseNumber(arg)\<close>, the expression
  that resolves an operand as a label first and as a number otherwise.\<close>

definition resolve :: "labels \<Rightarrow> string \<Rightarrow> fault + u16" where
  "resolve labels arg =
     (case labels (toUpper arg) of
        Some a \<Rightarrow> Inr a
      | None \<Rightarrow> parseNumber arg)"

text \<open>\<open>mem[i] = v\<close> through the pointer \<open>mem\<close> with no guard of its own: outside the buffer
  of \<open>memSize\<close> words the store is a fault.\<close>

definition store :: "nat \<Rightarrow> memory \<Rightarrow> nat \<Rightarrow> u16 \<Rightarrow> fault + memory" where
  "store memSize mem i v = (if i < memSize then Inr (mem(i := v)) else Inl (out_of_bounds_store i))"

text \<open>
  The \<open>switch (op)\<close> of the second pass. It ends a line by a \<open>return\<close> or a fault, or leaves
  the switch with the cursor, the memory and the word \<open>inst\<close> still to be stored.
\<close>

definition encode_MOVI ::
  "labels \<Rightarrow> nat \<Rightarrow> string list \<Rightarrow> u16 \<times> memory \<Rightarrow> (u16 \<times> memory \<times> u16) flow" where
  "encode_MOVI labels lineNo tok st =
     (if length tok < 3 then Return (failure ''MOVI Rd, imm'' lineNo) (fst st, snd st, 0)
      else case parseReg (tok ! 1) of
             Inl e \<Rightarrow> Raise e
           | Inr None \<Rightarrow> Return (failure ''Invalid register'' lineNo) (fst st, snd st, 0)
           | Inr (Some rd) \<Rightarrow>
               (case resolve labels (tok ! 2) of
                  Inl e \<Rightarrow> Raise e
                | Inr imm \<Rightarrow> Continue (fst st, snd st, encMOVI rd (imm AND 0x1FF))))"

definition encode_jump ::
  "labels \<Rightarrow> nat \<Rightarrow> nat \<Rightarrow> int \<Rightarrow> string list \<Rightarrow> u16 \<times> memory \<Rightarrow> (u16 \<times> memory \<times> u16) flow" where
  "encode_jump labels memSize lineNo op tok st =
     (let pc = fst st; mem = snd st
      in if length tok < 2 then Return (failure ''JMP/JZ needs target'' lineNo) (pc, mem, 0)
         else
           (let arg = tok ! 1
            in case parseReg arg of
                 Inl e \<Rightarrow> Raise e
               | Inr (Some rs) \<Rightarrow> Continue (pc, mem, encRR (word_of_int op) 0 rs)
               | Inr None \<Rightarrow>
                   (case resolve labels arg of
                      Inl e \<Rightarrow> Raise e
                    | Inr target \<Rightarrow>
                        if 0x1FF < target
                        then Return (failure ''Jump target > 511 (MOVI 9-bit limit); use register'' lineNo)
                               (pc, mem, 0)
                        else
                          (case store memSize mem (unat pc) (encMOVI 7 target) of
                             Inl e \<Rightarrow> Raise e
                           | Inr mem' \<Rightarrow> Continue (pc + 1, mem', encRR (word_of_int op) 0 7)))))"

definition encode_RR ::
  "labels \<Rightarrow> nat \<Rightarrow> int \<Rightarrow> string list \<Rightarrow> u16 \<times> memory \<Rightarrow> (u16 \<times> memory \<times> u16) flow" where
  "encode_RR labels lineNo op tok st =
     (let pc = fst st; mem = snd st
      in if length tok < 2 then Return (failure ''Needs operands'' lineNo) (pc, mem, 0)
         else case parseReg (tok ! 1) of
                Inl e \<Rightarrow> Raise e
              | Inr None \<Rightarrow> Return (failure ''Invalid Rd'' lineNo) (pc, mem, 0)
              | Inr (Some rd) \<Rightarrow>
                  if op = 10 \<or> op = 11 \<or> op = 12
                  then Continue (pc, mem, encRR (word_of_int op) rd rd)
                  else if 3 \<le> length tok then
                    (let arg = tok ! 2
                     in case parseReg arg of
                          Inl e \<Rightarrow> Raise e
                        | Inr (Some rs) \<Rightarrow> Continue (pc, mem, encRR (word_of_int op) rd rs)
                        | Inr None \<Rightarrow>
                            (case resolve labels arg of
                               Inl e \<Rightarrow> Raise e
                             | Inr val \<Rightarrow>
                                 Continue (pc, mem, encRR (word_of_int op) rd (ucast (val AND 7)))))
                  else Continue (pc, mem, encRR (word_of_int op) rd 0))"

definition encode ::
  "labels \<Rightarrow> nat \<Rightarrow> nat \<Rightarrow> int \<Rightarrow> string list \<Rightarrow> u16 \<times> memory \<Rightarrow> (u16 \<times> memory \<times> u16) flow" where
  "encode labels memSize lineNo op tok st =
     (if op = 0 then Continue (fst st, snd st, 0x0000)
      else if op = 1 then encode_MOVI labels lineNo tok st
      else if op = 13 \<or> op = 14 then encode_jump labels memSize lineNo op tok st
      else if 2 \<le> op \<and> op \<le> 12 then encode_RR labels lineNo op tok st
      else if op = 15 then Continue (fst st, snd st, 0xF000)
      else Continue (fst st, snd st, 0))"

text \<open>The body of the loop of the second pass.\<close>

definition pass2_line ::
  "labels \<Rightarrow> nat \<Rightarrow> nat \<Rightarrow> string \<Rightarrow> u16 \<times> memory \<Rightarrow> (u16 \<times> memory) flow" where
  "pass2_line labels memSize lineNo line st =
     (let pc = fst st; mem = snd st; rest = stripComment line
      in if rest = [] then Continue st
         else if last rest = CHR '':'' then Continue st
         else
           (let tok = tokenize rest
            in if tok = [] then Continue st
               else
                 (let cmd = toUpper (tok ! 0)
                  in if cmd = ''.ORG'' then
                       (if 2 \<le> length tok
                        then case parseNumber (tok ! 1) of
                               Inl e \<Rightarrow> Raise e
                             | Inr v \<Rightarrow> Continue (v, mem)
                        else Continue st)
                     else if cmd = ''.WORD'' then
                       (if 2 \<le> length tok
                        then case parseNumber (tok ! 1) of
                               Inl e \<Rightarrow> Raise e
                             | Inr val \<Rightarrow>
                                 if 3 \<le> length tok
                                 then case parseNumber (tok ! 1) of
                                        Inl e \<Rightarrow> Raise e
                                      | Inr addr \<Rightarrow>
                                          (case parseNumber (tok ! 2) of
                                             Inl e \<Rightarrow> Raise e
                                           | Inr val' \<Rightarrow>
                                               Continue (pc, if unat addr < memSize
                                                             then mem(unat addr := val') else mem))
                                 else Continue (pc + 1, if unat pc < memSize
                                                        then mem(unat pc := val) else mem)
                        else Continue st)
                     else
                       (let op = getOpcode cmd
                        in if op < 0 then Return (failure (''Unknown: '' @ cmd) lineNo) st
                           else if memSize \<le> unat pc
                           then Return (failure ''Program too large'' lineNo) st
                           else case encode labels memSize lineNo op tok st of
                                  Raise e \<Rightarrow> Raise e
                                | Return r x \<Rightarrow> Return r (fst x, fst (snd x))
                                | Continue x \<Rightarrow>
                                    (case store memSize (fst (snd x)) (unat (fst x)) (snd (snd x)) of
                                       Inl e \<Rightarrow> Raise e
                                     | Inr mem' \<Rightarrow> Continue (fst x + 1, mem'))))))"

fun pass2 ::
  "labels \<Rightarrow> nat \<Rightarrow> string list \<Rightarrow> nat \<Rightarrow> u16 \<times> memory \<Rightarrow> (u16 \<times> memory) flow" where
  "pass2 labels memSize [] lineNo st = Continue st"
| "pass2 labels memSize (line # rest) lineNo st =
     (case pass2_line labels memSize (Suc lineNo) line st of
        Continue st' \<Rightarrow> pass2 labels memSize rest (Suc lineNo) st'
      | Return r st' \<Rightarrow> Return r st'
      | Raise e \<Rightarrow> Raise e)"

text \<open>
  \<open>assemble(source, mem, memSize)\<close>: the returned \<open>AssembleResult\<close> and the memory the buffer
  holds at the return, or the fault that stopped the call.
\<close>

definition assemble :: "string \<Rightarrow> memory \<Rightarrow> nat \<Rightarrow> fault + AssembleResult \<times> memory" where
  "assemble source mem memSize =
     (case pass1 (getlines source) 0 (Map.empty, 0) of
        Raise e \<Rightarrow> Inl e
      | Return r st \<Rightarrow> Inr (r, mem)
      | Continue st \<Rightarrow>
          (case pass2 (fst st) memSize (getlines source) 0 (0, mem) of
             Raise e \<Rightarrow> Inl e
           | Return r st' \<Rightarrow> Inr (r, snd st')
           | Continue st' \<Rightarrow> Inr (\<lparr>ok = True, error = [], lineNum = 0\<rparr>, snd st')))"

section \<open>Facts about words and bits\<close>

lemma mask4: "(15::'a::len word) = mask 4" by (simp add: mask_eq_exp_minus_1)
lemma mask3: "(7::'a::len word) = mask 3" by (simp add: mask_eq_exp_minus_1)
lemma mask9: "(0x1FF::'a::len word) = mask 9" by (simp add: mask_eq_exp_minus_1)

lemma le15: "(w::u8) \<le> 15 \<Longrightarrow> w AND mask 4 = w"
  by (rule less_mask_eq) (simp add: word_le_nat_alt word_less_nat_alt)
lemma le7: "(w::u8) \<le> 7 \<Longrightarrow> w AND mask 3 = w"
  by (rule less_mask_eq) (simp add: word_le_nat_alt word_less_nat_alt)
lemma le511: "(w::u16) \<le> 511 \<Longrightarrow> w AND mask 9 = w"
  by (rule less_mask_eq) (simp add: word_le_nat_alt word_less_nat_alt)

lemma decodeOpcode_encRR: "decodeOpcode (encRR op rd rs) = op AND mask 4"
  unfolding decodeOpcode_def encRR_def mask4 mask3
  by (rule bit_word_eqI) (auto simp: bit_simps)

lemma decodeRd_encRR: "decodeRd (encRR op rd rs) = rd AND mask 3"
  unfolding decodeRd_def encRR_def mask4 mask3
  by (rule bit_word_eqI) (auto simp: bit_simps)

lemma decodeRs_encRR: "decodeRs (encRR op rd rs) = rs AND mask 3"
  unfolding decodeRs_def encRR_def mask4 mask3
  by (rule bit_word_eqI) (auto simp: bit_simps)

lemma bit_4096:
  "bit (4096::'a::semiring_bit_operations) n \<longleftrightarrow> possible_bit TYPE('a) n \<and> n = 12"
proof -
  have e: "(4096::'a) = 2 ^ 12" by simp
  show ?thesis by (simp only: e bit_exp_iff)
qed

lemma decodeOpcode_encMOVI: "decodeOpcode (encMOVI rd imm9) = 1"
  unfolding decodeOpcode_def encMOVI_def mask4 mask3 mask9
  by (rule bit_word_eqI) (auto simp: bit_simps bit_4096)

lemma decodeRd_encMOVI: "decodeRd (encMOVI rd imm9) = rd AND mask 3"
  unfolding decodeRd_def encMOVI_def mask4 mask3 mask9
  by (rule bit_word_eqI) (auto simp: bit_simps bit_4096)

lemma decodeImm9_encMOVI: "decodeImm9 (encMOVI rd imm9) = imm9 AND mask 9"
  unfolding decodeImm9_def encMOVI_def mask4 mask3 mask9
  by (rule bit_word_eqI) (auto simp: bit_simps bit_4096)

text \<open>
  Claim C3. For every opcode in 0..15, registers \<open>rd\<close> and \<open>rs\<close> in 0..7 and immediate in
  0..511, decoding the word of \<open>encRR\<close> gives back the opcode, \<open>rd\<close> and \<open>rs\<close>, and decoding
  the word of \<open>encMOVI\<close> gives back opcode 1, \<open>rd\<close> and the immediate.
\<close>

theorem codec_round_trip:
  assumes "op \<le> 15" and "rd \<le> 7" and "rs \<le> 7" and "imm9 \<le> 511"
  shows "decodeOpcode (encRR op rd rs) = op \<and> decodeRd (encRR op rd rs) = rd \<and>
         decodeRs (encRR op rd rs) = rs \<and>
         decodeOpcode (encMOVI rd imm9) = 1 \<and> decodeRd (encMOVI rd imm9) = rd \<and>
         decodeImm9 (encMOVI rd imm9) = imm9"
  using assms
  by (simp add: decodeOpcode_encRR decodeRd_encRR decodeRs_encRR decodeOpcode_encMOVI
      decodeRd_encMOVI decodeImm9_encMOVI le15 le7 le511)

text \<open>The round trip at \<open>JZ R7\<close> and \<open>MOVI R0, 300\<close>.\<close>

theorem codec_round_trip_witness:
  "(14::u8) \<le> 15 \<and> (0::u8) \<le> 7 \<and> (7::u8) \<le> 7 \<and> (300::u16) \<le> 511 \<and>
   decodeOpcode (encRR 14 0 7) = 14 \<and> decodeRd (encRR 14 0 7) = 0 \<and>
   decodeRs (encRR 14 0 7) = 7 \<and>
   decodeOpcode (encMOVI 0 300) = 1 \<and> decodeRd (encMOVI 0 300) = 0 \<and>
   decodeImm9 (encMOVI 0 300) = 300"
  using codec_round_trip [of 14 0 7 300] by simp


section \<open>The flags after an instruction\<close>

lemma unat_ucast_16_32: "unat (ucast (a::u16) :: u32) = unat a"
  by (simp add: unsigned_ucast_eq take_bit_nat_eq_self_iff)
     (rule order_less_trans[OF unsigned_less], simp)

lemma unat_u16_bound: "unat (a::u16) < 65536"
  using unsigned_less[of a, where 'a=nat] by simp

lemma carry32:
  "((0xFFFF :: u32) < ucast (a::u16) + ucast (b::u16)) \<longleftrightarrow> 65535 < unat a + unat b"
proof -
  have "unat (ucast a + ucast b :: u32) = unat a + unat b"
    using unat_u16_bound[of a] unat_u16_bound[of b]
    by (simp add: unat_word_ariths unat_ucast_16_32)
  then show ?thesis by (simp add: word_less_nat_alt)
qed

lemma neg_bit: "((ucast (r::u16) :: u32) AND 0x8000 \<noteq> 0) \<longleftrightarrow> bit r 15"
proof -
  have e: "(0x8000 :: u32) = push_bit 15 1" by simp
  have "((ucast r :: u32) AND push_bit 15 1 \<noteq> 0) \<longleftrightarrow> bit (ucast r :: u32) 15"
    by (simp only: bit_iff_and_push_bit_not_eq_0)
  also have "\<dots> \<longleftrightarrow> bit r 15" by (simp add: bit_simps)
  finally show ?thesis by (simp only: e)
qed

lemma cleared_and:
  fixes F Z C N :: "'f::len word"
  shows "(F AND NOT (Z OR C OR N)) AND C = 0"
    and "(F AND NOT (Z OR C OR N)) AND Z = 0"
    and "(F AND NOT (Z OR C OR N)) AND N = 0"
    and "(F AND NOT Z AND NOT C AND NOT N) AND C = 0"
    and "(F AND NOT Z AND NOT C AND NOT N) AND Z = 0"
    and "(F AND NOT Z AND NOT C AND NOT N) AND N = 0"
  by (rule bit_word_eqI; auto simp: bit_simps)+

lemma or_and_distrib:
  fixes X :: "'f::len word"
  shows "(X OR Y) AND M = (X AND M) OR (Y AND M)"
  by (rule bit_word_eqI; auto simp: bit_simps)

lemma FLAGS_set_flag_if [simp]:
  "FLAGS (set_flag_if c m s) = (if c then FLAGS s OR m else FLAGS s)"
  by (simp add: set_flag_if_def)

lemma FLAGS_clear_flags [simp]:
  "FLAGS (clear_flags h s) = FLAGS s AND NOT (FLAG_ZERO h OR FLAG_CARRY h OR FLAG_NEGATIVE h)"
  by (simp add: clear_flags_def)

lemma other_set_flag_if [simp]:
  "R (set_flag_if c m s) = R s" "PC (set_flag_if c m s) = PC s"
  "halted (set_flag_if c m s) = halted s"
  by (simp_all add: set_flag_if_def)

lemma other_clear_flags [simp]:
  "R (clear_flags h s) = R s" "PC (clear_flags h s) = PC s"
  "halted (clear_flags h s) = halted s"
  by (simp_all add: clear_flags_def)

lemma flag_tests:
  fixes h :: "('f::len) word gpr_cpu_h"
  assumes "flags_independent h"
  defines "F \<equiv> \<lambda>(z::bool) (n::bool) (c::bool) (s::'f word CPUState).
     FLAGS (set_flag_if c (FLAG_CARRY h) (set_flag_if n (FLAG_NEGATIVE h)
       (set_flag_if z (FLAG_ZERO h) (clear_flags h s))))"
  shows "(F z n c s AND FLAG_ZERO h \<noteq> 0) \<longleftrightarrow> z"
    and "(F z n c s AND FLAG_NEGATIVE h \<noteq> 0) \<longleftrightarrow> n"
    and "(F z n c s AND FLAG_CARRY h \<noteq> 0) \<longleftrightarrow> c"
proof -
  have i: "FLAG_ZERO h \<noteq> 0" "FLAG_CARRY h \<noteq> 0" "FLAG_NEGATIVE h \<noteq> 0"
    "FLAG_ZERO h AND FLAG_CARRY h = 0" "FLAG_ZERO h AND FLAG_NEGATIVE h = 0"
    "FLAG_CARRY h AND FLAG_NEGATIVE h = 0"
    "FLAG_CARRY h AND FLAG_ZERO h = 0" "FLAG_NEGATIVE h AND FLAG_ZERO h = 0"
    "FLAG_NEGATIVE h AND FLAG_CARRY h = 0"
    using assms(1) by (simp_all add: flags_independent_def and.commute)
  show "(F z n c s AND FLAG_ZERO h \<noteq> 0) \<longleftrightarrow> z"
    by (simp add: F_def or_and_distrib cleared_and i)
  show "(F z n c s AND FLAG_NEGATIVE h \<noteq> 0) \<longleftrightarrow> n"
    by (simp add: F_def or_and_distrib cleared_and i)
  show "(F z n c s AND FLAG_CARRY h \<noteq> 0) \<longleftrightarrow> c"
    by (simp add: F_def or_and_distrib cleared_and i)
qed

lemma to_Opcode_5: "to_Opcode 5 = ADD" by (simp add: to_Opcode_def)

text \<open>
  Claim C2. Executing a word whose opcode field is ADD, from a state with \<open>R[rd] = a\<close> and
  \<open>R[rs] = b\<close> (so \<open>a = b\<close> when \<open>rd = rs\<close>), leaves \<open>R[rd] = (a + b) mod 65536\<close>; afterwards
  the Carry flag is set exactly when \<open>a + b > 65535\<close>, the Zero flag exactly when the wrapped
  sum is 0 and the Negative flag exactly when its bit 15 is set, whatever the flags were
  before.
\<close>

theorem execute_ADD:
  fixes h :: "('f::len) word gpr_cpu_h"
  assumes "decodeOpcode inst = 5"
    and "flags_independent h"
    and "R s (unat (decodeRd inst)) = a"
    and "R s (unat (decodeRs inst)) = b"
  shows "R (fst (execute h inst (s, mem))) (unat (decodeRd inst)) = a + b \<and>
         unat (R (fst (execute h inst (s, mem))) (unat (decodeRd inst))) = (unat a + unat b) mod 65536 \<and>
         ((FLAGS (fst (execute h inst (s, mem))) AND FLAG_CARRY h \<noteq> 0) \<longleftrightarrow> 65535 < unat a + unat b) \<and>
         ((FLAGS (fst (execute h inst (s, mem))) AND FLAG_ZERO h \<noteq> 0) \<longleftrightarrow> a + b = 0) \<and>
         ((FLAGS (fst (execute h inst (s, mem))) AND FLAG_NEGATIVE h \<noteq> 0) \<longleftrightarrow> bit (a + b) 15)"
proof -
  let ?rd = "unat (decodeRd inst)"
  let ?s1 = "s\<lparr>R := (R s)(?rd := a + b)\<rparr>"
  have ex: "fst (execute h inst (s, mem)) = setAddFlags h a b (a + b) ?s1"
    using assms by (simp add: execute_def to_Opcode_5 Let_def)
  have r: "R (setAddFlags h a b (a + b) ?s1) ?rd = a + b"
    by (simp add: setAddFlags_def)
  have c: "(FLAGS (setAddFlags h a b (a + b) ?s1) AND FLAG_CARRY h \<noteq> 0) \<longleftrightarrow> 65535 < unat a + unat b"
    unfolding setAddFlags_def using flag_tests(3)[OF assms(2)] by (simp only: carry32)
  have z: "(FLAGS (setAddFlags h a b (a + b) ?s1) AND FLAG_ZERO h \<noteq> 0) \<longleftrightarrow> a + b = 0"
    unfolding setAddFlags_def using flag_tests(1)[OF assms(2)] by simp
  have n: "(FLAGS (setAddFlags h a b (a + b) ?s1) AND FLAG_NEGATIVE h \<noteq> 0) \<longleftrightarrow> bit (a + b) 15"
    unfolding setAddFlags_def using flag_tests(2)[OF assms(2)] by (simp only: neg_bit)
  show ?thesis
    unfolding ex using r c z n by (simp add: unat_word_ariths)
qed


text \<open>\<open>ADD R1, R2\<close> with \<open>R1 = 0xFFFF\<close> and \<open>R2 = 1\<close>: the sum wraps to 0 and Carry is set.\<close>

theorem execute_ADD_witness:
  "decodeOpcode (encRR 5 1 2) = 5 \<and>
   flags_independent \<lparr>MEMORY_SIZE = 256, FLAG_ZERO = 1 :: 8 word, FLAG_CARRY = 2, FLAG_NEGATIVE = 4\<rparr> \<and>
   R (fst (execute \<lparr>MEMORY_SIZE = 256, FLAG_ZERO = 1 :: 8 word, FLAG_CARRY = 2, FLAG_NEGATIVE = 4\<rparr>
        (encRR 5 1 2)
        (\<lparr>R = (\<lambda>i. if i = 1 then 0xFFFF else 1), PC = 0, FLAGS = 4, halted = False\<rparr>, \<lambda>_. 0)))
     (unat (decodeRd (encRR 5 1 2))) = 0xFFFF + 1 \<and>
   FLAGS (fst (execute \<lparr>MEMORY_SIZE = 256, FLAG_ZERO = 1 :: 8 word, FLAG_CARRY = 2, FLAG_NEGATIVE = 4\<rparr>
        (encRR 5 1 2)
        (\<lparr>R = (\<lambda>i. if i = 1 then 0xFFFF else 1), PC = 0, FLAGS = 4, halted = False\<rparr>, \<lambda>_. 0)))
     AND 2 \<noteq> 0"
proof -
  let ?h = "\<lparr>MEMORY_SIZE = 256, FLAG_ZERO = 1 :: 8 word, FLAG_CARRY = 2, FLAG_NEGATIVE = 4\<rparr>"
  let ?s = "\<lparr>R = (\<lambda>i. if i = 1 then 0xFFFF else 1 :: u16), PC = 0, FLAGS = 4 :: 8 word, halted = False\<rparr>"
  have op: "decodeOpcode (encRR 5 1 2) = 5" by (simp add: decodeOpcode_encRR le15)
  have rd: "decodeRd (encRR 5 1 2) = 1" by (simp add: decodeRd_encRR le7)
  have rs: "decodeRs (encRR 5 1 2) = 2" by (simp add: decodeRs_encRR le7)
  have fi: "flags_independent ?h" by (simp add: flags_independent_def)
  have a: "R ?s (unat (decodeRd (encRR 5 1 2))) = 0xFFFF" by (simp add: rd)
  have b: "R ?s (unat (decodeRs (encRR 5 1 2))) = 1" by (simp add: rs)
  show ?thesis
    using execute_ADD [OF op fi a b, of "\<lambda>_. 0"] op fi by simp
qed

section \<open>One step of the CPU\<close>

lemma to_Opcode_HALT: "to_Opcode op = HALT \<longleftrightarrow> op = 0"
  by (simp add: to_Opcode_def)

lemma halted_execute:
  "halted (fst (execute h inst (s, mem))) \<longleftrightarrow> halted s \<or> decodeOpcode inst = 0"
  by (cases "to_Opcode (decodeOpcode inst)")
     (auto simp: execute_def Let_def setResultFlags_def setAddFlags_def setSubFlags_def
        to_Opcode_HALT[symmetric])

text \<open>
  Claim C4. \<open>step\<close> on a halted CPU returns false and changes neither the CPU state nor the
  memory. On a running CPU it executes the word read at \<open>PC\<close> on the state whose \<open>PC\<close> is
  already incremented, and returns the negation of \<open>halted\<close> afterwards, which is false
  exactly when the fetched word has the opcode of HALT.
\<close>

theorem step_halted_and_running:
  "(halted s \<longrightarrow> step h (s, mem) = (False, s, mem)) \<and>
   (\<not> halted s \<longrightarrow>
      snd (step h (s, mem)) = execute h (Bus_read h mem (PC s)) (s\<lparr>PC := PC s + 1\<rparr>, mem) \<and>
      fst (step h (s, mem)) = (\<not> halted (fst (snd (step h (s, mem))))) \<and>
      (fst (step h (s, mem)) = False \<longleftrightarrow> decodeOpcode (Bus_read h mem (PC s)) = 0))"
proof -
  have "halted (fst (execute h (Bus_read h mem (PC s)) (s\<lparr>PC := PC s + 1\<rparr>, mem)))
        \<longleftrightarrow> halted s \<or> decodeOpcode (Bus_read h mem (PC s)) = 0"
    using halted_execute [of h "Bus_read h mem (PC s)" "s\<lparr>PC := PC s + 1\<rparr>" mem] by simp
  then show ?thesis by (simp add: step_def Let_def)
qed

text \<open>A halted CPU, and a running CPU whose next word is HALT.\<close>

theorem step_halted_and_running_witness:
  "halted \<lparr>R = (\<lambda>i. 0), PC = 3, FLAGS = 0 :: 8 word, halted = True\<rparr> \<and>
   step \<lparr>MEMORY_SIZE = 256, FLAG_ZERO = 1 :: 8 word, FLAG_CARRY = 2, FLAG_NEGATIVE = 4\<rparr>
     (\<lparr>R = (\<lambda>i. 0), PC = 3, FLAGS = 0, halted = True\<rparr>, \<lambda>_. 0xF000)
   = (False, \<lparr>R = (\<lambda>i. 0), PC = 3, FLAGS = 0, halted = True\<rparr>, \<lambda>_. 0xF000) \<and>
   \<not> halted \<lparr>R = (\<lambda>i. 0), PC = 3, FLAGS = 0 :: 8 word, halted = False\<rparr> \<and>
   decodeOpcode (Bus_read \<lparr>MEMORY_SIZE = 256, FLAG_ZERO = 1 :: 8 word, FLAG_CARRY = 2, FLAG_NEGATIVE = 4\<rparr>
     (\<lambda>_. 0) (PC \<lparr>R = (\<lambda>i. 0), PC = 3, FLAGS = 0 :: 8 word, halted = False\<rparr>)) = 0 \<and>
   fst (step \<lparr>MEMORY_SIZE = 256, FLAG_ZERO = 1 :: 8 word, FLAG_CARRY = 2, FLAG_NEGATIVE = 4\<rparr>
     (\<lparr>R = (\<lambda>i. 0), PC = 3, FLAGS = 0, halted = False\<rparr>, \<lambda>_. 0)) = False"
proof -
  let ?h = "\<lparr>MEMORY_SIZE = 256, FLAG_ZERO = 1 :: 8 word, FLAG_CARRY = 2, FLAG_NEGATIVE = 4\<rparr>"
  let ?s = "\<lparr>R = (\<lambda>i. 0), PC = 3, FLAGS = 0 :: 8 word, halted = True\<rparr>"
  let ?t = "\<lparr>R = (\<lambda>i. 0), PC = 3, FLAGS = 0 :: 8 word, halted = False\<rparr>"
  have d: "decodeOpcode (Bus_read ?h (\<lambda>_. 0) (PC ?t)) = 0"
    by (simp add: decodeOpcode_def Bus_read_def)
  have a: "step ?h (?s, \<lambda>_. 0xF000) = (False, ?s, \<lambda>_. 0xF000)"
    using step_halted_and_running [of ?s ?h "\<lambda>_. 0xF000"] by simp
  have nh: "\<not> halted ?t" by simp
  have "fst (step ?h (?t, \<lambda>_. 0)) = False \<longleftrightarrow> decodeOpcode (Bus_read ?h (\<lambda>_. 0) (PC ?t)) = 0"
    using step_halted_and_running [of ?t ?h "\<lambda>_. 0"] nh by blast
  then have b: "fst (step ?h (?t, \<lambda>_. 0)) = False" using d by blast
  show ?thesis using a b d nh by simp
qed


section \<open>Reads and writes through the bus\<close>

text \<open>
  Claim C5. Outside the capacity a read returns 0 and a write leaves the memory as it
  was (both are plain values: there is no error to signal). Within the capacity a read
  returns the value last written at the address, also after a write elsewhere.
\<close>

theorem bus_out_of_range_and_in_range:
  "(\<not> unat a < MEMORY_SIZE h \<longrightarrow> Bus_read h mem a = 0 \<and> Bus_write h mem a v = mem) \<and>
   (unat a < MEMORY_SIZE h \<longrightarrow>
      Bus_read h (Bus_write h mem a v) a = v \<and>
      (b \<noteq> a \<longrightarrow> Bus_read h (Bus_write h (Bus_write h mem a v) b w) a = v))"
  by (auto simp: Bus_read_def Bus_write_def word_unat_eq_iff)

text \<open>A memory of 256 words: address 300 is outside, address 5 is inside.\<close>

theorem bus_out_of_range_and_in_range_witness:
  "\<not> unat (300 :: u16) < MEMORY_SIZE \<lparr>MEMORY_SIZE = 256, FLAG_ZERO = 1 :: 8 word, FLAG_CARRY = 2, FLAG_NEGATIVE = 4\<rparr> \<and>
   Bus_read \<lparr>MEMORY_SIZE = 256, FLAG_ZERO = 1 :: 8 word, FLAG_CARRY = 2, FLAG_NEGATIVE = 4\<rparr> (\<lambda>_. 7) 300 = 0 \<and>
   Bus_write \<lparr>MEMORY_SIZE = 256, FLAG_ZERO = 1 :: 8 word, FLAG_CARRY = 2, FLAG_NEGATIVE = 4\<rparr> (\<lambda>_. 7) 300 9 = (\<lambda>_. 7) \<and>
   unat (5 :: u16) < MEMORY_SIZE \<lparr>MEMORY_SIZE = 256, FLAG_ZERO = 1 :: 8 word, FLAG_CARRY = 2, FLAG_NEGATIVE = 4\<rparr> \<and>
   (6 :: u16) \<noteq> 5 \<and>
   Bus_read \<lparr>MEMORY_SIZE = 256, FLAG_ZERO = 1 :: 8 word, FLAG_CARRY = 2, FLAG_NEGATIVE = 4\<rparr>
     (Bus_write \<lparr>MEMORY_SIZE = 256, FLAG_ZERO = 1 :: 8 word, FLAG_CARRY = 2, FLAG_NEGATIVE = 4\<rparr>
        (Bus_write \<lparr>MEMORY_SIZE = 256, FLAG_ZERO = 1 :: 8 word, FLAG_CARRY = 2, FLAG_NEGATIVE = 4\<rparr> (\<lambda>_. 7) 5 9) 6 8) 5 = 9"
  using bus_out_of_range_and_in_range
          [of 300 "\<lparr>MEMORY_SIZE = 256, FLAG_ZERO = 1 :: 8 word, FLAG_CARRY = 2, FLAG_NEGATIVE = 4\<rparr>" "\<lambda>_. 7" 9]
        bus_out_of_range_and_in_range
          [of 5 "\<lparr>MEMORY_SIZE = 256, FLAG_ZERO = 1 :: 8 word, FLAG_CARRY = 2, FLAG_NEGATIVE = 4\<rparr>" "\<lambda>_. 7" 9 6 8]
  by simp

section \<open>The expansion of a jump to a label, executed\<close>

lemma to_Opcode_1: "to_Opcode 1 = MOVI" by (simp add: to_Opcode_def)
lemma to_Opcode_14: "to_Opcode 14 = JZ" by (simp add: to_Opcode_def)

lemma le511_not_bit15: "(w::u16) \<le> 511 \<Longrightarrow> \<not> bit w 15"
proof
  assume a: "w \<le> 511" and b: "bit w 15"
  have "\<not> bit (w AND mask 9) 15" by (simp add: bit_simps)
  then have "\<not> bit w 15" unfolding le511 [OF a] .
  with b show False by (rule notE [rotated])
qed

lemma execute_encMOVI:
  assumes "target \<le> 0x1FF"
  shows "execute h (encMOVI 7 target) (s, mem) =
         (set_flag_if (target = 0) (FLAG_ZERO h) (clear_flags h (s\<lparr>R := (R s)(7 := target)\<rparr>)), mem)"
proof -
  have rd: "decodeRd (encMOVI 7 target) = 7" by (simp add: decodeRd_encMOVI le7)
  have im: "decodeImm9 (encMOVI 7 target) = target"
    using assms by (simp add: decodeImm9_encMOVI le511)
  have nb: "\<not> ((ucast target :: u32) AND 0x8000 \<noteq> 0)"
    using le511_not_bit15 [OF assms] by (simp add: neg_bit)
  show ?thesis
    using nb by (simp add: execute_def decodeOpcode_encMOVI to_Opcode_1 rd im Let_def
        setResultFlags_def set_flag_if_def)
qed

lemma execute_JZ_R7:
  "execute h (encRR 14 0 7) (s, mem) =
     (if FLAGS s AND FLAG_ZERO h \<noteq> 0 then (s\<lparr>PC := R s 7\<rparr>, mem) else (s, mem))"
proof -
  have op: "decodeOpcode (encRR 14 0 7) = 14" by (simp add: decodeOpcode_encRR le15)
  have rs: "decodeRs (encRR 14 0 7) = 7" by (simp add: decodeRs_encRR le7)
  show ?thesis by (simp add: execute_def op rs to_Opcode_14 Let_def)
qed

lemma zero_flag_after:
  fixes h :: "('f::len) word gpr_cpu_h"
  assumes "FLAG_ZERO h \<noteq> 0"
  shows "(FLAGS (set_flag_if z (FLAG_ZERO h) (clear_flags h s)) AND FLAG_ZERO h \<noteq> 0) \<longleftrightarrow> z"
  using assms by (simp add: or_and_distrib cleared_and)

text \<open>
  Claim C9. The expansion of \<open>JZ <label>\<close> is the two words \<open>MOVI R7, target\<close> and
  \<open>JZ R7\<close>. Running them from any state that is not halted: the MOVI loads the target
  into R7 and leaves the Zero flag set exactly when the target is 0, whatever the flag
  was on entry; so for a target other than 0 the JZ does not jump and the next
  instruction is the one after the two words, and for the target 0 it always jumps.
\<close>

theorem expanded_JZ_tests_fresh_flags:
  fixes h :: "('f::len) word gpr_cpu_h"
  assumes "\<not> halted s" and "FLAG_ZERO h \<noteq> 0" and "target \<le> 0x1FF"
    and "Bus_read h mem (PC s) = encMOVI 7 target"
    and "Bus_read h mem (PC s + 1) = encRR 14 0 7"
    and "step h (s, mem) = (b1, s1, mem1)"
    and "step h (s1, mem1) = (b2, s2, mem2)"
  shows "b1 \<and> R s1 7 = target \<and> mem1 = mem \<and>
         ((FLAGS s1 AND FLAG_ZERO h \<noteq> 0) \<longleftrightarrow> target = 0) \<and>
         (target \<noteq> 0 \<longrightarrow> b2 \<and> PC s2 = PC s + 2) \<and>
         (target = 0 \<longrightarrow> PC s2 = 0)"
proof -
  let ?s1 = "set_flag_if (target = 0) (FLAG_ZERO h)
               (clear_flags h (s\<lparr>PC := PC s + 1, R := (R s)(7 := target)\<rparr>))"
  have s1: "s1 = ?s1" and m1: "mem1 = mem" and b1: "b1"
    using assms(1,4,6) execute_encMOVI [OF assms(3), of h "s\<lparr>PC := PC s + 1\<rparr>" mem]
    by (auto simp: step_def Let_def)
  have z: "(FLAGS s1 AND FLAG_ZERO h \<noteq> 0) \<longleftrightarrow> target = 0"
    unfolding s1 by (rule zero_flag_after [OF assms(2)])
  have pc1: "PC s1 = PC s + 1" and h1: "\<not> halted s1" and r1: "R s1 7 = target"
    using assms(1) by (simp_all add: s1)
  have e2: "step h (s1, mem) =
      (\<not> halted (fst (execute h (encRR 14 0 7) (s1\<lparr>PC := PC s + 2\<rparr>, mem))),
       execute h (encRR 14 0 7) (s1\<lparr>PC := PC s + 2\<rparr>, mem))"
    using assms(5) h1 by (simp add: step_def Let_def pc1 add.assoc)
  have st2: "(b2, s2, mem2) =
      (\<not> halted (fst (execute h (encRR 14 0 7) (s1\<lparr>PC := PC s + 2\<rparr>, mem))),
       execute h (encRR 14 0 7) (s1\<lparr>PC := PC s + 2\<rparr>, mem))"
    by (rule trans [OF assms(7) [unfolded m1, symmetric] e2])
  have nz: "b2 \<and> PC s2 = PC s + 2" if "target \<noteq> 0"
  proof -
    from that z have "FLAGS s1 AND FLAG_ZERO h = 0" by simp
    then have "execute h (encRR 14 0 7) (s1\<lparr>PC := PC s + 2\<rparr>, mem) = (s1\<lparr>PC := PC s + 2\<rparr>, mem)"
      by (simp add: execute_JZ_R7)
    with st2 h1 show ?thesis by simp
  qed
  have zz: "PC s2 = 0" if "target = 0"
  proof -
    from that z have "FLAGS s1 AND FLAG_ZERO h \<noteq> 0" by simp
    then have "execute h (encRR 14 0 7) (s1\<lparr>PC := PC s + 2\<rparr>, mem) = (s1\<lparr>PC := R s1 7\<rparr>, mem)"
      by (simp add: execute_JZ_R7)
    with st2 r1 that show ?thesis by simp
  qed
  show ?thesis using b1 r1 m1 z nz zz by simp
qed


text \<open>Entered with the Zero flag set: the target 5 falls through to address 2, the
  target 0 jumps to address 0.\<close>

theorem expanded_JZ_tests_fresh_flags_witness:
  "\<not> halted \<lparr>R = (\<lambda>i. 0), PC = 0, FLAGS = 1 :: 8 word, halted = False\<rparr> \<and>
   FLAG_ZERO \<lparr>MEMORY_SIZE = 256, FLAG_ZERO = 1 :: 8 word, FLAG_CARRY = 2, FLAG_NEGATIVE = 4\<rparr> \<noteq> 0 \<and>
   (5 :: u16) \<le> 0x1FF \<and> (5 :: u16) \<noteq> 0 \<and> (0 :: u16) \<le> 0x1FF \<and>
   Bus_read \<lparr>MEMORY_SIZE = 256, FLAG_ZERO = 1 :: 8 word, FLAG_CARRY = 2, FLAG_NEGATIVE = 4\<rparr> ((\<lambda>_. 0)(0 := encMOVI 7 5, 1 := encRR 14 0 7)) (PC \<lparr>R = (\<lambda>i. 0), PC = 0, FLAGS = 1 :: 8 word, halted = False\<rparr>) = encMOVI 7 5 \<and>
   Bus_read \<lparr>MEMORY_SIZE = 256, FLAG_ZERO = 1 :: 8 word, FLAG_CARRY = 2, FLAG_NEGATIVE = 4\<rparr> ((\<lambda>_. 0)(0 := encMOVI 7 5, 1 := encRR 14 0 7)) (PC \<lparr>R = (\<lambda>i. 0), PC = 0, FLAGS = 1 :: 8 word, halted = False\<rparr> + 1) = encRR 14 0 7 \<and>
   PC (fst (snd (step \<lparr>MEMORY_SIZE = 256, FLAG_ZERO = 1 :: 8 word, FLAG_CARRY = 2, FLAG_NEGATIVE = 4\<rparr> (snd (step \<lparr>MEMORY_SIZE = 256, FLAG_ZERO = 1 :: 8 word, FLAG_CARRY = 2, FLAG_NEGATIVE = 4\<rparr> (\<lparr>R = (\<lambda>i. 0), PC = 0, FLAGS = 1 :: 8 word, halted = False\<rparr>, ((\<lambda>_. 0)(0 := encMOVI 7 5, 1 := encRR 14 0 7)))))))) = 2 \<and>
   Bus_read \<lparr>MEMORY_SIZE = 256, FLAG_ZERO = 1 :: 8 word, FLAG_CARRY = 2, FLAG_NEGATIVE = 4\<rparr> ((\<lambda>_. 0)(0 := encMOVI 7 0, 1 := encRR 14 0 7)) (PC \<lparr>R = (\<lambda>i. 0), PC = 0, FLAGS = 1 :: 8 word, halted = False\<rparr>) = encMOVI 7 0 \<and>
   Bus_read \<lparr>MEMORY_SIZE = 256, FLAG_ZERO = 1 :: 8 word, FLAG_CARRY = 2, FLAG_NEGATIVE = 4\<rparr> ((\<lambda>_. 0)(0 := encMOVI 7 0, 1 := encRR 14 0 7)) (PC \<lparr>R = (\<lambda>i. 0), PC = 0, FLAGS = 1 :: 8 word, halted = False\<rparr> + 1) = encRR 14 0 7 \<and>
   PC (fst (snd (step \<lparr>MEMORY_SIZE = 256, FLAG_ZERO = 1 :: 8 word, FLAG_CARRY = 2, FLAG_NEGATIVE = 4\<rparr> (snd (step \<lparr>MEMORY_SIZE = 256, FLAG_ZERO = 1 :: 8 word, FLAG_CARRY = 2, FLAG_NEGATIVE = 4\<rparr> (\<lparr>R = (\<lambda>i. 0), PC = 0, FLAGS = 1 :: 8 word, halted = False\<rparr>, ((\<lambda>_. 0)(0 := encMOVI 7 0, 1 := encRR 14 0 7)))))))) = 0"
proof -
  let ?h = "\<lparr>MEMORY_SIZE = 256, FLAG_ZERO = 1 :: 8 word, FLAG_CARRY = 2, FLAG_NEGATIVE = 4\<rparr>"
  let ?s = "\<lparr>R = (\<lambda>i. 0), PC = 0, FLAGS = 1 :: 8 word, halted = False\<rparr>"
  let ?m5 = "((\<lambda>_. 0)(0 := encMOVI 7 5, 1 := encRR 14 0 7))"
  let ?m0 = "((\<lambda>_. 0)(0 := encMOVI 7 0, 1 := encRR 14 0 7))"
  have nh: "\<not> halted ?s" and fz: "FLAG_ZERO ?h \<noteq> 0" by simp_all
  have t5: "(5 :: u16) \<le> 0x1FF" and t0: "(0 :: u16) \<le> 0x1FF" by simp_all
  have r5: "Bus_read ?h ?m5 (PC ?s) = encMOVI 7 5" "Bus_read ?h ?m5 (PC ?s + 1) = encRR 14 0 7"
    by (simp_all add: Bus_read_def)
  have r0: "Bus_read ?h ?m0 (PC ?s) = encMOVI 7 0" "Bus_read ?h ?m0 (PC ?s + 1) = encRR 14 0 7"
    by (simp_all add: Bus_read_def)
  have c: "step ?h sm = (fst (step ?h sm), fst (snd (step ?h sm)), snd (snd (step ?h sm)))" for sm
    by simp
  have p5: "PC (fst (snd (step ?h (snd (step ?h (?s, ?m5)))))) = PC ?s + 2"
    using expanded_JZ_tests_fresh_flags [OF nh fz t5 r5 c [of "(?s, ?m5)"]
      c [of "(fst (snd (step ?h (?s, ?m5))), snd (snd (step ?h (?s, ?m5))))"]]
    by simp
  have p0: "PC (fst (snd (step ?h (snd (step ?h (?s, ?m0)))))) = 0"
    using expanded_JZ_tests_fresh_flags [OF nh fz t0 r0 c [of "(?s, ?m0)"]
      c [of "(fst (snd (step ?h (?s, ?m0))), snd (snd (step ?h (?s, ?m0))))"]]
    by simp
  show ?thesis using nh fz r5 r0 p5 p0 by simp
qed

section \<open>The loops over the lines\<close>

lemma pass1_append:
  "pass1 (xs @ ys) n st =
     (case pass1 xs n st of
        Continue st' \<Rightarrow> pass1 ys (n + length xs) st'
      | Return r st' \<Rightarrow> Return r st'
      | Raise e \<Rightarrow> Raise e)"
  by (induction xs arbitrary: n st) (auto split: flow.splits)

lemma pass2_append:
  "pass2 labels memSize (xs @ ys) n st =
     (case pass2 labels memSize xs n st of
        Continue st' \<Rightarrow> pass2 labels memSize ys (n + length xs) st'
      | Return r st' \<Rightarrow> Return r st'
      | Raise e \<Rightarrow> Raise e)"
  by (induction xs arbitrary: n st) (auto split: flow.splits)

section \<open>The .WORD directive\<close>

lemma getOpcode_WORD: "getOpcode ''.WORD'' = - 1" by (simp add: getOpcode_def)

lemma pass1_line_WORD:
  assumes "stripComment line \<noteq> []" and "last (stripComment line) \<noteq> CHR '':''"
    and "tokenize (stripComment line) = tok" and "tok \<noteq> []"
    and "toUpper (tok ! 0) = ''.WORD''"
  shows "pass1_line n line (labels, pc) =
     (if length tok = 1 then Return (failure ''.WORD requires value'' n) (labels, pc)
      else if length tok = 2 then Continue (labels, pc + 1)
      else Continue (labels, pc))"
  using assms by (simp add: pass1_line_def Let_def)

lemma pass2_line_WORD:
  assumes "stripComment line \<noteq> []" and "last (stripComment line) \<noteq> CHR '':''"
    and "tokenize (stripComment line) = tok" and "tok \<noteq> []"
    and "toUpper (tok ! 0) = ''.WORD''"
  shows "pass2_line labels memSize n line (pc, mem) =
     (if 2 \<le> length tok
      then case parseNumber (tok ! 1) of
             Inl e \<Rightarrow> Raise e
           | Inr val \<Rightarrow>
               if 3 \<le> length tok
               then (case parseNumber (tok ! 2) of
                       Inl e \<Rightarrow> Raise e
                     | Inr val' \<Rightarrow>
                         Continue (pc, if unat val < memSize then mem(unat val := val') else mem))
               else Continue (pc + 1, if unat pc < memSize then mem(unat pc := val) else mem)
      else Continue (pc, mem))"
  using assms by (simp add: pass2_line_def Let_def split: sum.splits)

text \<open>
  Claim C7. A \<open>.WORD\<close> line with two operands (three tokens or more) pokes the value into
  the cell at the given address, when the address is below \<open>memSize\<close>, and leaves the
  cursor of pass 2 and the counter of pass 1 where they were: both passes go on with the
  following lines from the cursor before the directive. With one operand the value goes
  into the cell at the cursor, when the cursor is below \<open>memSize\<close>, and both passes go on
  from the cursor plus one (in 16-bit arithmetic).
\<close>

theorem WORD_directive_cursor:
  assumes "stripComment line \<noteq> []" and "last (stripComment line) \<noteq> CHR '':''"
    and "tokenize (stripComment line) = tok" and "tok \<noteq> []"
    and "toUpper (tok ! 0) = ''.WORD''"
  shows "(3 \<le> length tok \<and> parseNumber (tok ! 1) = Inr addr \<and> parseNumber (tok ! 2) = Inr val \<longrightarrow>
           pass1 (line # following) n (labels, pc) = pass1 following (Suc n) (labels, pc) \<and>
           pass2 labels memSize (line # following) n (pc, mem) =
             pass2 labels memSize following (Suc n)
               (pc, if unat addr < memSize then mem(unat addr := val) else mem)) \<and>
         (length tok = 2 \<and> parseNumber (tok ! 1) = Inr val \<longrightarrow>
           pass1 (line # following) n (labels, pc) = pass1 following (Suc n) (labels, pc + 1) \<and>
           pass2 labels memSize (line # following) n (pc, mem) =
             pass2 labels memSize following (Suc n)
               (pc + 1, if unat pc < memSize then mem(unat pc := val) else mem))"
  using pass1_line_WORD [OF assms, of "Suc n" labels pc]
        pass2_line_WORD [OF assms, of labels memSize "Suc n" pc mem]
  by auto

text \<open>
  \<open>.WORD 0x50 0xFFFF\<close> at cursor 3 of a buffer of 256 words: the following HALT lands at 3
  and a following label is bound to 3; after \<open>.WORD 9\<close> they land at 4.
\<close>

theorem WORD_directive_cursor_witness:
  "(case pass2 Map.empty 256 [''.WORD 0x50 0xFFFF'', ''HALT''] 0 (3, \<lambda>_. 7) of
      Continue st \<Rightarrow> fst st = 4 \<and> snd st 3 = 0 \<and> snd st 0x50 = 0xFFFF | _ \<Rightarrow> False) \<and>
   (case pass1 [''.WORD 0x50 0xFFFF'', ''L:''] 0 (Map.empty, 3) of
      Continue st \<Rightarrow> fst st ''L'' = Some 3 | _ \<Rightarrow> False) \<and>
   (case pass2 Map.empty 256 [''.WORD 9'', ''HALT''] 0 (3, \<lambda>_. 7) of
      Continue st \<Rightarrow> fst st = 5 \<and> snd st 3 = 9 \<and> snd st 4 = 0 | _ \<Rightarrow> False) \<and>
   (case pass1 [''.WORD 9'', ''L:''] 0 (Map.empty, 3) of
      Continue st \<Rightarrow> fst st ''L'' = Some 4 | _ \<Rightarrow> False)"
proof -
  let ?two = "''.WORD 0x50 0xFFFF''"
  let ?one = "''.WORD 9''"
  have l2: "stripComment ?two \<noteq> []" "last (stripComment ?two) \<noteq> CHR '':''"
    "tokenize (stripComment ?two) = [''.WORD'', ''0x50'', ''0xFFFF'']"
    "[''.WORD'', ''0x50'', ''0xFFFF''] \<noteq> []"
    "toUpper ([''.WORD'', ''0x50'', ''0xFFFF''] ! 0) = ''.WORD''"
    by code_simp+
  have l1: "stripComment ?one \<noteq> []" "last (stripComment ?one) \<noteq> CHR '':''"
    "tokenize (stripComment ?one) = [''.WORD'', ''9'']"
    "[''.WORD'', ''9''] \<noteq> []"
    "toUpper ([''.WORD'', ''9''] ! 0) = ''.WORD''"
    by code_simp+
  have a2: "3 \<le> length [''.WORD'', ''0x50'', ''0xFFFF''] \<and>
            parseNumber ([''.WORD'', ''0x50'', ''0xFFFF''] ! 1) = Inr 0x50 \<and>
            parseNumber ([''.WORD'', ''0x50'', ''0xFFFF''] ! 2) = Inr 0xFFFF"
    by code_simp
  have a1: "length [''.WORD'', ''9''] = 2 \<and> parseNumber ([''.WORD'', ''9''] ! 1) = Inr 9"
    by code_simp
  have e2: "pass1 (?two # [''L:'']) 0 (Map.empty, 3) = pass1 [''L:''] (Suc 0) (Map.empty, 3)"
    "pass2 Map.empty 256 (?two # [''HALT'']) 0 (3, \<lambda>_. 7) =
       pass2 Map.empty 256 [''HALT''] (Suc 0)
         (3, if unat (0x50 :: u16) < 256 then (\<lambda>_. 7)(unat (0x50 :: u16) := 0xFFFF) else (\<lambda>_. 7))"
    using WORD_directive_cursor [OF l2, where addr = "0x50" and val = "0xFFFF"
            and following = "[''L:'']" and n = 0 and labels = Map.empty and pc = 3
            and memSize = 256 and mem = "\<lambda>_. 7"]
          WORD_directive_cursor [OF l2, where addr = "0x50" and val = "0xFFFF"
            and following = "[''HALT'']" and n = 0 and labels = Map.empty and pc = 3
            and memSize = 256 and mem = "\<lambda>_. 7"]
          a2
    by blast+
  have e1: "pass1 (?one # [''L:'']) 0 (Map.empty, 3) = pass1 [''L:''] (Suc 0) (Map.empty, 3 + 1)"
    "pass2 Map.empty 256 (?one # [''HALT'']) 0 (3, \<lambda>_. 7) =
       pass2 Map.empty 256 [''HALT''] (Suc 0)
         (3 + 1, if unat (3 :: u16) < 256 then (\<lambda>_. 7)(unat (3 :: u16) := 9) else (\<lambda>_. 7))"
    using WORD_directive_cursor [OF l1, where val = 9
            and following = "[''L:'']" and n = 0 and labels = Map.empty and pc = 3
            and memSize = 256 and mem = "\<lambda>_. 7"]
          WORD_directive_cursor [OF l1, where val = 9
            and following = "[''HALT'']" and n = 0 and labels = Map.empty and pc = 3
            and memSize = 256 and mem = "\<lambda>_. 7"]
          a1
    by blast+
  have v2: "case pass2 Map.empty 256 [''HALT''] (Suc 0)
                 (3, if unat (0x50 :: u16) < 256 then (\<lambda>_. 7)(unat (0x50 :: u16) := 0xFFFF) else (\<lambda>_. 7)) of
              Continue st \<Rightarrow> fst st = 4 \<and> snd st 3 = 0 \<and> snd st 0x50 = 0xFFFF | _ \<Rightarrow> False"
    by code_simp
  have w2: "case pass1 [''L:''] (Suc 0) (Map.empty, 3) of
              Continue st \<Rightarrow> fst st ''L'' = Some 3 | _ \<Rightarrow> False"
    by code_simp
  have v1: "case pass2 Map.empty 256 [''HALT''] (Suc 0)
                 (3 + 1, if unat (3 :: u16) < 256 then (\<lambda>_. 7)(unat (3 :: u16) := 9) else (\<lambda>_. 7)) of
              Continue st \<Rightarrow> fst st = 5 \<and> snd st 3 = 9 \<and> snd st 4 = 0 | _ \<Rightarrow> False"
    by code_simp
  have w1: "case pass1 [''L:''] (Suc 0) (Map.empty, 3 + 1) of
              Continue st \<Rightarrow> fst st ''L'' = Some 4 | _ \<Rightarrow> False"
    by code_simp
  show ?thesis
    by (intro conjI; (subst e2 | subst e1)) (rule v2 w2 v1 w1)+
qed







section \<open>Jumps to a label or a number\<close>

lemma getOpcode_jump: "getOpcode ''JMP'' = 13" "getOpcode ''JZ'' = 14"
  by (simp_all add: getOpcode_def)

lemma lineNum_failure [simp]: "lineNum (failure msg n) = n" "ok (failure msg n) = False"
  "error (failure msg n) = msg"
  by (simp_all add: failure_def)

lemma pass2_line_jump:
  assumes "stripComment line \<noteq> []" and "last (stripComment line) \<noteq> CHR '':''"
    and "tokenize (stripComment line) = tok" and "2 \<le> length tok"
    and "toUpper (tok ! 0) = ''JMP'' \<or> toUpper (tok ! 0) = ''JZ''"
    and "parseReg (tok ! 1) = Inr None"
    and "resolve labels (tok ! 1) = Inr target"
    and "unat pc < memSize"
  shows "pass2_line labels memSize n line (pc, mem) =
     (if 0x1FF < target
      then Return (failure ''Jump target > 511 (MOVI 9-bit limit); use register'' n) (pc, mem)
      else case store memSize (mem(unat pc := encMOVI 7 target)) (unat (pc + 1))
                  (encRR (word_of_int (getOpcode (toUpper (tok ! 0)))) 0 7) of
             Inl e \<Rightarrow> Raise e
           | Inr mem' \<Rightarrow> Continue (pc + 2, mem'))"
proof -
  have ne: "tok \<noteq> []" using assms(4) by auto
  have l2: "\<not> length tok < 2" using assms(4) by simp
  from assms(5) show ?thesis
  proof
    assume c: "toUpper (tok ! 0) = ''JMP''"
    show ?thesis
      using assms(1,2,3,6,7,8) ne l2
      by (simp add: pass2_line_def Let_def c getOpcode_jump encode_def encode_jump_def store_def
          add.assoc split: sum.splits)
  next
    assume c: "toUpper (tok ! 0) = ''JZ''"
    show ?thesis
      using assms(1,2,3,6,7,8) ne l2
      by (simp add: pass2_line_def Let_def c getOpcode_jump encode_def encode_jump_def store_def
          add.assoc split: sum.splits)
  qed
qed


section \<open>A failed result carries the number of the line that returned it\<close>

lemma encode_MOVI_Return:
  "encode_MOVI labels n tok st = Return r x \<Longrightarrow> lineNum r = n"
  by (auto simp: encode_MOVI_def split: if_splits sum.splits option.splits)

lemma encode_jump_Return:
  "encode_jump labels memSize n op tok st = Return r x \<Longrightarrow> lineNum r = n"
  by (auto simp: encode_jump_def Let_def store_def split: if_splits sum.splits option.splits)

lemma encode_RR_Return:
  "encode_RR labels n op tok st = Return r x \<Longrightarrow> lineNum r = n"
  by (auto simp: encode_RR_def Let_def split: if_splits sum.splits option.splits)

lemma encode_Return:
  "encode labels memSize n op tok st = Return r x \<Longrightarrow> lineNum r = n"
  by (auto simp: encode_def dest: encode_MOVI_Return encode_jump_Return encode_RR_Return
      split: if_splits)

lemma pass2_line_Return:
  "pass2_line labels memSize n line st = Return r st' \<Longrightarrow> lineNum r = n"
  by (auto simp: pass2_line_def Let_def store_def dest: encode_Return
      split: if_splits sum.splits flow.splits)

lemma pass2_Return:
  "pass2 labels memSize ls n st = Return r st' \<Longrightarrow> n < lineNum r"
proof (induction ls arbitrary: n st)
  case Nil
  then show ?case by simp
next
  case (Cons l ls)
  show ?case
  proof (cases "pass2_line labels memSize (Suc n) l st")
    case (Continue st1)
    with Cons.prems have "pass2 labels memSize ls (Suc n) st1 = Return r st'" by simp
    from Cons.IH [OF this] show ?thesis by simp
  next
    case (Return r1 st1)
    with Cons.prems have "r1 = r" by simp
    with pass2_line_Return [OF Return] show ?thesis by simp
  next
    case (Raise e)
    with Cons.prems show ?thesis by simp
  qed
qed


lemma pass2_line_full:
  assumes "stripComment line \<noteq> []" and "last (stripComment line) \<noteq> CHR '':''"
    and "tokenize (stripComment line) = tok" and "tok \<noteq> []"
    and "toUpper (tok ! 0) = ''JMP'' \<or> toUpper (tok ! 0) = ''JZ''"
    and "memSize \<le> unat pc"
  shows "pass2_line labels memSize n line (pc, mem) =
           Return (failure ''Program too large'' n) (pc, mem)"
  using assms by (auto simp: pass2_line_def Let_def getOpcode_jump)

text \<open>
  Claim C6, as amended. Let pass 1 succeed and let pass 2 reach a JMP or JZ line, no
  earlier line having failed. If the cursor is at or beyond \<open>memSize\<close>, \<open>assemble\<close> returns
  the failure "Program too large" with the 1-based number of that line, whatever the
  target. If the cursor is below \<open>memSize\<close>, \<open>parseReg\<close> returns false on the target token
  and the token resolves, as a declared label or else as a number that \<open>parseNumber\<close>
  returns, to an address, then: for an address above 511 \<open>assemble\<close> returns the failure
  "Jump target > 511" with the 1-based number of that line, and for an address of at most
  511 \<open>assemble\<close> does not return that failure for that line. Nothing is said of a target
  token on which \<open>parseReg\<close> or \<open>parseNumber\<close> throws instead of returning.
\<close>

theorem jump_target_above_511:
  assumes "getlines source = pre @ line # post"
    and "pass1 (getlines source) 0 (Map.empty, 0) = Continue st1"
    and "pass2 (fst st1) memSize pre 0 (0, mem) = Continue st2"
    and "stripComment line \<noteq> []" and "last (stripComment line) \<noteq> CHR '':''"
    and "tokenize (stripComment line) = tok" and "tok \<noteq> []"
    and "toUpper (tok ! 0) = ''JMP'' \<or> toUpper (tok ! 0) = ''JZ''"
  shows "(memSize \<le> unat (fst st2) \<longrightarrow>
           assemble source mem memSize =
             Inr (failure ''Program too large'' (Suc (length pre)), snd st2)) \<and>
         (unat (fst st2) < memSize \<and> 2 \<le> length tok \<and> parseReg (tok ! 1) = Inr None \<and>
          resolve (fst st1) (tok ! 1) = Inr target \<longrightarrow>
           (0x1FF < target \<longrightarrow>
              assemble source mem memSize =
                Inr (failure ''Jump target > 511 (MOVI 9-bit limit); use register'' (Suc (length pre)), snd st2)) \<and>
           (target \<le> 0x1FF \<longrightarrow>
              (\<forall>m. assemble source mem memSize \<noteq>
                Inr (failure ''Jump target > 511 (MOVI 9-bit limit); use register'' (Suc (length pre)), m))))"
proof -
  let ?msg = "''Jump target > 511 (MOVI 9-bit limit); use register''"
  let ?k = "Suc (length pre)"
  let ?labels = "fst st1"
  obtain pc mem' where st2: "st2 = (pc, mem')" by (cases st2)
  have loop: "pass2 ?labels memSize (getlines source) 0 (0, mem) =
     (case pass2_line ?labels memSize ?k line st2 of
        Continue st' \<Rightarrow> pass2 ?labels memSize post ?k st'
      | Return r st' \<Rightarrow> Return r st'
      | Raise e \<Rightarrow> Raise e)"
    by (simp add: assms(1,3) pass2_append)
  have asm: "assemble source mem memSize =
     (case pass2 ?labels memSize (getlines source) 0 (0, mem) of
        Raise e \<Rightarrow> Inl e
      | Return r st' \<Rightarrow> Inr (r, snd st')
      | Continue st' \<Rightarrow> Inr (\<lparr>ok = True, error = [], lineNum = 0\<rparr>, snd st'))"
    by (simp add: assemble_def assms(2))
  have full: "assemble source mem memSize = Inr (failure ''Program too large'' ?k, snd st2)"
    if "memSize \<le> unat (fst st2)"
  proof -
    have "pass2_line ?labels memSize ?k line st2 =
            Return (failure ''Program too large'' ?k) (pc, mem')"
      unfolding st2 using that by (intro pass2_line_full [OF assms(4-8)]) (simp add: st2)
    then show ?thesis by (simp add: asm loop st2)
  qed
  have inside: "(0x1FF < target \<longrightarrow>
        assemble source mem memSize = Inr (failure ?msg ?k, snd st2)) \<and>
      (target \<le> 0x1FF \<longrightarrow>
        (\<forall>m. assemble source mem memSize \<noteq> Inr (failure ?msg ?k, m)))"
    if c: "unat (fst st2) < memSize" and l2: "2 \<le> length tok"
      and pr: "parseReg (tok ! 1) = Inr None"
      and rs: "resolve (fst st1) (tok ! 1) = Inr target"
  proof -
    have line: "pass2_line ?labels memSize ?k line st2 =
       (if 0x1FF < target then Return (failure ?msg ?k) (pc, mem')
        else case store memSize (mem'(unat pc := encMOVI 7 target)) (unat (pc + 1))
                    (encRR (word_of_int (getOpcode (toUpper (tok ! 0)))) 0 7) of
               Inl e \<Rightarrow> Raise e
             | Inr m \<Rightarrow> Continue (pc + 2, m))"
      unfolding st2
      using c by (intro pass2_line_jump [OF assms(4-6) l2 assms(8) pr rs]) (simp add: st2)
    have above: "assemble source mem memSize = Inr (failure ?msg ?k, snd st2)" if "0x1FF < target"
      using that line by (simp add: asm loop st2)
    have below: "assemble source mem memSize \<noteq> Inr (failure ?msg ?k, m)"
      if t: "target \<le> 0x1FF" for m
    proof (cases "pass2_line ?labels memSize ?k line st2")
      case (Raise e)
      then show ?thesis by (simp add: asm loop)
    next
      case (Return r st')
      with line t show ?thesis by (simp add: not_less [symmetric] split: sum.splits)
    next
      case (Continue st')
      show ?thesis
      proof (cases "pass2 ?labels memSize post ?k st'")
        case (Raise e)
        with Continue show ?thesis by (simp add: asm loop)
      next
        case (Return r st'')
        from pass2_Return [OF this] have "lineNum r \<noteq> ?k" by simp
        then have "r \<noteq> failure ?msg ?k" by auto
        with Continue Return show ?thesis by (simp add: asm loop)
      next
        case c: (Continue st'')
        have "\<lparr>ok = True, error = [], lineNum = 0\<rparr> \<noteq> failure ?msg ?k"
          by (simp add: failure_def)
        with Continue c show ?thesis by (simp add: asm loop)
      qed
    qed
    show ?thesis using above below by blast
  qed
  show ?thesis using full inside by blast
qed

text \<open>
  Claim C6 as stated fails where the cursor has reached \<open>memSize\<close>: with a buffer of 4
  words, \<open>JMP 600\<close> after \<open>.ORG 4\<close> is reported as "Program too large", the check that
  precedes the encoding of every instruction.
\<close>

theorem jump_target_above_511_counterexample:
  "case assemble ''.ORG 4\<newline>JMP 600'' (\<lambda>_. 0) 4 of
     Inr (r, m) \<Rightarrow> \<not> ok r \<and> error r = ''Program too large'' \<and> lineNum r = 2
   | Inl e \<Rightarrow> False"
  by code_simp

text \<open>\<open>JMP 600\<close> on line 2 with the cursor at the capacity of 4 words, and \<open>JMP 600\<close> and
  \<open>JMP 5\<close> on line 2 after a NOP in a buffer of 16 words.\<close>

theorem jump_target_above_511_witness:
  "(case assemble ''.ORG 4\<newline>JMP 600'' (\<lambda>_. 0) 4 of
      Inr (r, m) \<Rightarrow> r = failure ''Program too large'' 2
    | Inl e \<Rightarrow> False) \<and>
   (case assemble ''NOP\<newline>JMP 600'' (\<lambda>_. 0) 16 of
      Inr (r, m) \<Rightarrow> r = failure ''Jump target > 511 (MOVI 9-bit limit); use register'' 2
    | Inl e \<Rightarrow> False) \<and>
   (\<forall>m. assemble ''NOP\<newline>JMP 5'' (\<lambda>_. 0) 16 \<noteq> Inr (failure ''Jump target > 511 (MOVI 9-bit limit); use register'' 2, m))"
proof -
  let ?a = "''NOP\<newline>JMP 600''"
  let ?b = "''NOP\<newline>JMP 5''"
  let ?c = "''.ORG 4\<newline>JMP 600''"
  have ga: "getlines ?a = [''NOP''] @ ''JMP 600'' # []" by code_simp
  have gb: "getlines ?b = [''NOP''] @ ''JMP 5'' # []" by code_simp
  have gc: "getlines ?c = [''.ORG 4''] @ ''JMP 600'' # []" by code_simp
  have fa: "case pass1 (getlines ?a) 0 (Map.empty, 0) of
              Continue st \<Rightarrow> resolve (fst st) ''600'' = Inr 600 \<and>
                (case pass2 (fst st) 16 [''NOP''] 0 (0, \<lambda>_. 0) of
                   Continue st2 \<Rightarrow> unat (fst st2) < 16 | _ \<Rightarrow> False)
            | _ \<Rightarrow> False"
    by code_simp
  have fb: "case pass1 (getlines ?b) 0 (Map.empty, 0) of
              Continue st \<Rightarrow> resolve (fst st) ''5'' = Inr 5 \<and>
                (case pass2 (fst st) 16 [''NOP''] 0 (0, \<lambda>_. 0) of
                   Continue st2 \<Rightarrow> unat (fst st2) < 16 | _ \<Rightarrow> False)
            | _ \<Rightarrow> False"
    by code_simp
  have fc: "case pass1 (getlines ?c) 0 (Map.empty, 0) of
              Continue st \<Rightarrow>
                (case pass2 (fst st) 4 [''.ORG 4''] 0 (0, \<lambda>_. 0) of
                   Continue st2 \<Rightarrow> 4 \<le> unat (fst st2) | _ \<Rightarrow> False)
            | _ \<Rightarrow> False"
    by code_simp
  obtain a1 where a1: "pass1 (getlines ?a) 0 (Map.empty, 0) = Continue a1"
    and ra: "resolve (fst a1) ''600'' = Inr 600"
    and fa2: "case pass2 (fst a1) 16 [''NOP''] 0 (0, \<lambda>_. 0) of
                Continue st2 \<Rightarrow> unat (fst st2) < 16 | _ \<Rightarrow> False"
    using fa by (cases "pass1 (getlines ?a) 0 (Map.empty, 0)") auto
  obtain a2 where a2: "pass2 (fst a1) 16 [''NOP''] 0 (0, \<lambda>_. 0) = Continue a2"
    and ca: "unat (fst a2) < 16"
    using fa2 by (cases "pass2 (fst a1) 16 [''NOP''] 0 (0, \<lambda>_. 0)") auto
  obtain b1 where b1: "pass1 (getlines ?b) 0 (Map.empty, 0) = Continue b1"
    and rb: "resolve (fst b1) ''5'' = Inr 5"
    and fb2: "case pass2 (fst b1) 16 [''NOP''] 0 (0, \<lambda>_. 0) of
                Continue st2 \<Rightarrow> unat (fst st2) < 16 | _ \<Rightarrow> False"
    using fb by (cases "pass1 (getlines ?b) 0 (Map.empty, 0)") auto
  obtain b2 where b2: "pass2 (fst b1) 16 [''NOP''] 0 (0, \<lambda>_. 0) = Continue b2"
    and cb: "unat (fst b2) < 16"
    using fb2 by (cases "pass2 (fst b1) 16 [''NOP''] 0 (0, \<lambda>_. 0)") auto
  obtain c1 where c1: "pass1 (getlines ?c) 0 (Map.empty, 0) = Continue c1"
    and fc2: "case pass2 (fst c1) 4 [''.ORG 4''] 0 (0, \<lambda>_. 0) of
                Continue st2 \<Rightarrow> 4 \<le> unat (fst st2) | _ \<Rightarrow> False"
    using fc by (cases "pass1 (getlines ?c) 0 (Map.empty, 0)") auto
  obtain c2 where c2: "pass2 (fst c1) 4 [''.ORG 4''] 0 (0, \<lambda>_. 0) = Continue c2"
    and cc: "4 \<le> unat (fst c2)"
    using fc2 by (cases "pass2 (fst c1) 4 [''.ORG 4''] 0 (0, \<lambda>_. 0)") auto
  have la: "stripComment ''JMP 600'' \<noteq> []" "last (stripComment ''JMP 600'') \<noteq> CHR '':''"
    "tokenize (stripComment ''JMP 600'') = [''JMP'', ''600'']"
    by code_simp+
  have lb: "stripComment ''JMP 5'' \<noteq> []" "last (stripComment ''JMP 5'') \<noteq> CHR '':''"
    "tokenize (stripComment ''JMP 5'') = [''JMP'', ''5'']"
    by code_simp+
  have ne: "[''JMP'', ''600''] \<noteq> []" "[''JMP'', ''5''] \<noteq> []" by simp_all
  have len: "2 \<le> length [''JMP'', ''600'']" "2 \<le> length [''JMP'', ''5'']" by simp_all
  have up: "toUpper ([''JMP'', ''600''] ! 0) = ''JMP'' \<or> toUpper ([''JMP'', ''600''] ! 0) = ''JZ''"
    "toUpper ([''JMP'', ''5''] ! 0) = ''JMP'' \<or> toUpper ([''JMP'', ''5''] ! 0) = ''JZ''"
    by code_simp+
  have pr: "parseReg ([''JMP'', ''600''] ! 1) = Inr None" "parseReg ([''JMP'', ''5''] ! 1) = Inr None"
    by code_simp+
  have e: "Suc (length [''NOP'']) = 2" "Suc (length [''.ORG 4'']) = 2" by simp_all
  have ra': "resolve (fst a1) ([''JMP'', ''600''] ! 1) = Inr 600" using ra by simp
  have rb': "resolve (fst b1) ([''JMP'', ''5''] ! 1) = Inr 5" using rb by simp
  have "assemble ?c (\<lambda>_. 0) 4 = Inr (failure ''Program too large'' 2, snd c2)"
    using jump_target_above_511 [OF gc c1 c2 la ne(1) up(1), unfolded e] cc by blast
  then have C: "case assemble ?c (\<lambda>_. 0) 4 of
                  Inr (r, m) \<Rightarrow> r = failure ''Program too large'' 2 | Inl e \<Rightarrow> False"
    by simp
  have big: "(0x1FF :: u16) < 600" and small: "(5 :: u16) \<le> 0x1FF" by simp_all
  have "assemble ?a (\<lambda>_. 0) 16 = Inr (failure ''Jump target > 511 (MOVI 9-bit limit); use register'' 2, snd a2)"
    using jump_target_above_511 [OF ga a1 a2 la ne(1) up(1), where target = 600, unfolded e]
      ca len(1) pr(1) ra' big
    by blast
  then have A: "case assemble ?a (\<lambda>_. 0) 16 of Inr (r, m) \<Rightarrow> r = failure ''Jump target > 511 (MOVI 9-bit limit); use register'' 2 | Inl e \<Rightarrow> False"
    by simp
  have B: "\<forall>m. assemble ?b (\<lambda>_. 0) 16 \<noteq> Inr (failure ''Jump target > 511 (MOVI 9-bit limit); use register'' 2, m)"
    using jump_target_above_511 [OF gb b1 b2 lb ne(2) up(2), where target = 5, unfolded e]
      cb len(2) pr(2) rb' small
    by blast
  show ?thesis using C A B by (intro conjI)
qed

section \<open>The forward-referenced label of a jump\<close>

lemma to_Opcode_0: "to_Opcode 0 = HALT" by (simp add: to_Opcode_def)

lemma execute_encMOVI_any:
  assumes "rd \<le> 7" and "imm \<le> 0x1FF"
  shows "execute h (encMOVI rd imm) (s, mem) =
         (set_flag_if (imm = 0) (FLAG_ZERO h) (clear_flags h (s\<lparr>R := (R s)(unat rd := imm)\<rparr>)), mem)"
proof -
  have rd: "decodeRd (encMOVI rd imm) = rd" using assms(1) by (simp add: decodeRd_encMOVI le7)
  have im: "decodeImm9 (encMOVI rd imm) = imm"
    using assms(2) by (simp add: decodeImm9_encMOVI le511)
  have nb: "\<not> ((ucast imm :: u32) AND 0x8000 \<noteq> 0)"
    using le511_not_bit15 [OF assms(2)] by (simp add: neg_bit)
  show ?thesis
    using nb by (simp add: execute_def decodeOpcode_encMOVI to_Opcode_1 rd im Let_def
        setResultFlags_def set_flag_if_def)
qed

lemma execute_HALT: "execute h 0 (s, mem) = (s\<lparr>halted := True\<rparr>, mem)"
proof -
  have "decodeOpcode 0 = 0" by (simp add: decodeOpcode_def)
  then show ?thesis by (simp add: execute_def Let_def to_Opcode_0)
qed

lemma run_from_True: "step h sm = (True, sm') \<Longrightarrow> run_from h c sm = run_from h (Suc c) sm'"
  by (subst run_from.simps) simp

lemma run_from_False: "step h sm = (False, sm') \<Longrightarrow> run_from h c sm = Some (c, sm')"
  by (subst run_from.simps) simp

lemma forward_label_run:
  fixes h :: "('f::len) word gpr_cpu_h"
  assumes "4 \<le> MEMORY_SIZE h"
    and "m 0 = encMOVI 7 2" and "m 1 = encRR 14 0 7" and "m 2 = encMOVI 0 1" and "m 3 = 0"
    and "PC s = 0" and "\<not> halted s"
  shows "\<exists>s'. run h (s, m) = Some (3, s', m) \<and> R s' 0 = 1 \<and> PC s' = 4 \<and> halted s'"
proof -
  let ?s1 = "clear_flags h (s\<lparr>PC := 1, R := (R s)(7 := 2)\<rparr>)"
  let ?s2 = "?s1\<lparr>PC := 2\<rparr>"
  let ?s3 = "clear_flags h (?s2\<lparr>PC := 3, R := (R ?s2)(0 := 1)\<rparr>)"
  let ?s4 = "?s3\<lparr>PC := 4, halted := True\<rparr>"
  have rd: "Bus_read h m 0 = encMOVI 7 2" "Bus_read h m 1 = encRR 14 0 7"
    "Bus_read h m 2 = encMOVI 0 1" "Bus_read h m 3 = 0"
    using assms(1-5) by (simp_all add: Bus_read_def)
  have st1: "step h (s, m) = (True, ?s1, m)"
    using assms(6,7) execute_encMOVI_any [of 7 2 h "s\<lparr>PC := 1\<rparr>" m]
    by (simp add: step_def Let_def rd set_flag_if_def)
  have z: "FLAGS ?s1 AND FLAG_ZERO h = 0" by (simp add: cleared_and)
  have st2: "step h (?s1, m) = (True, ?s2, m)"
    using assms(7) z by (simp add: step_def Let_def rd execute_JZ_R7)
  have st3: "step h (?s2, m) = (True, ?s3, m)"
    using assms(7) execute_encMOVI_any [of 0 1 h "?s2\<lparr>PC := 3\<rparr>" m]
    by (simp add: step_def Let_def rd set_flag_if_def)
  have st4: "step h (?s3, m) = (False, ?s4, m)"
    using assms(7) by (simp add: step_def Let_def rd execute_HALT)
  have "run h (s, m) = run_from h (Suc 0) (?s1, m)"
    unfolding run_def by (rule run_from_True [OF st1])
  also have "\<dots> = run_from h (Suc (Suc 0)) (?s2, m)"
    by (rule run_from_True [OF st2])
  also have "\<dots> = run_from h (Suc (Suc (Suc 0))) (?s3, m)"
    by (rule run_from_True [OF st3])
  also have "\<dots> = Some (Suc (Suc (Suc 0)), ?s4, m)"
    by (rule run_from_False [OF st4])
  finally have "run h (s, m) = Some (3, ?s4, m)"
    by (simp add: numeral_3_eq_3)
  moreover have "R ?s4 0 = 1 \<and> PC ?s4 = 4 \<and> halted ?s4" by simp
  ultimately show ?thesis by blast
qed


text \<open>
  Claim C1, evaluated at the program of the claim: \<open>JZ DONE\<close>, \<open>MOVI R0, 1\<close>, \<open>DONE:\<close>,
  \<open>HALT\<close>. Pass 1 counts one word for \<open>JZ DONE\<close> and binds DONE to 2 with its counter
  ending at 3; pass 2 emits two words for that line, so its cursor is 3 when it reaches
  the line of the label, the MOVI of the program lies at 2 and HALT at 3. DONE is
  therefore the address of the MOVI, not of the word after it. Run with the Zero flag
  set, the program executes the MOVI: it halts after three cycles with \<open>R0 = 1\<close>.
\<close>

theorem forward_label_program:
  fixes h :: "('f::len) word gpr_cpu_h"
  shows "\<exists>st r m.
     pass1 (getlines ''JZ DONE\<newline>MOVI R0, 1\<newline>DONE:\<newline>HALT\<newline>'') 0 (Map.empty, 0) = Continue st \<and>
     fst st ''DONE'' = Some 2 \<and> snd st = 3 \<and>
     (\<exists>c. pass2 (fst st) 16 (take 2 (getlines ''JZ DONE\<newline>MOVI R0, 1\<newline>DONE:\<newline>HALT\<newline>'')) 0 (0, \<lambda>_. 0) = Continue c \<and> fst c = 3) \<and>
     assemble ''JZ DONE\<newline>MOVI R0, 1\<newline>DONE:\<newline>HALT\<newline>'' (\<lambda>_. 0) 16 = Inr (r, m) \<and> ok r \<and>
     m 0 = encMOVI 7 2 \<and> m 1 = encRR 14 0 7 \<and> m 2 = encMOVI 0 1 \<and> m 3 = 0 \<and>
     (\<exists>s'. run (h\<lparr>MEMORY_SIZE := 16\<rparr>) (reset\<lparr>FLAGS := FLAG_ZERO h\<rparr>, m) = Some (3, s', m) \<and>
           R s' 0 = 1 \<and> PC s' = 4 \<and> halted s')"
proof -
  have f: "case pass1 (getlines ''JZ DONE\<newline>MOVI R0, 1\<newline>DONE:\<newline>HALT\<newline>'') 0 (Map.empty, 0) of
             Continue st \<Rightarrow> fst st ''DONE'' = Some 2 \<and> snd st = 3 \<and>
               (case pass2 (fst st) 16 (take 2 (getlines ''JZ DONE\<newline>MOVI R0, 1\<newline>DONE:\<newline>HALT\<newline>'')) 0 (0, \<lambda>_. 0) of
                  Continue c \<Rightarrow> fst c = 3 | _ \<Rightarrow> False)
           | _ \<Rightarrow> False"
    by code_simp
  have g: "case assemble ''JZ DONE\<newline>MOVI R0, 1\<newline>DONE:\<newline>HALT\<newline>'' (\<lambda>_. 0) 16 of
             Inr (r, m) \<Rightarrow> ok r \<and> m 0 = encMOVI 7 2 \<and> m 1 = encRR 14 0 7 \<and>
               m 2 = encMOVI 0 1 \<and> m 3 = 0
           | Inl e \<Rightarrow> False"
    by code_simp
  obtain st where st: "pass1 (getlines ''JZ DONE\<newline>MOVI R0, 1\<newline>DONE:\<newline>HALT\<newline>'') 0 (Map.empty, 0) = Continue st"
    "fst st ''DONE'' = Some 2" "snd st = 3"
    and f2: "case pass2 (fst st) 16 (take 2 (getlines ''JZ DONE\<newline>MOVI R0, 1\<newline>DONE:\<newline>HALT\<newline>'')) 0 (0, \<lambda>_. 0) of
               Continue c \<Rightarrow> fst c = 3 | _ \<Rightarrow> False"
    using f by (cases "pass1 (getlines ''JZ DONE\<newline>MOVI R0, 1\<newline>DONE:\<newline>HALT\<newline>'') 0 (Map.empty, 0)") auto
  obtain c where c: "pass2 (fst st) 16 (take 2 (getlines ''JZ DONE\<newline>MOVI R0, 1\<newline>DONE:\<newline>HALT\<newline>'')) 0 (0, \<lambda>_. 0) = Continue c" "fst c = 3"
    using f2 by (cases "pass2 (fst st) 16 (take 2 (getlines ''JZ DONE\<newline>MOVI R0, 1\<newline>DONE:\<newline>HALT\<newline>'')) 0 (0, \<lambda>_. 0)") auto
  obtain r m where a: "assemble ''JZ DONE\<newline>MOVI R0, 1\<newline>DONE:\<newline>HALT\<newline>'' (\<lambda>_. 0) 16 = Inr (r, m)" "ok r"
    and m: "m 0 = encMOVI 7 2" "m 1 = encRR 14 0 7" "m 2 = encMOVI 0 1" "m 3 = 0"
    using g by (cases "assemble ''JZ DONE\<newline>MOVI R0, 1\<newline>DONE:\<newline>HALT\<newline>'' (\<lambda>_. 0) 16") auto
  have "\<exists>s'. run (h\<lparr>MEMORY_SIZE := 16\<rparr>) (reset\<lparr>FLAGS := FLAG_ZERO h\<rparr>, m) = Some (3, s', m) \<and>
           R s' 0 = 1 \<and> PC s' = 4 \<and> halted s'"
    by (rule forward_label_run [OF _ m]) (simp_all add: reset_def)
  with st c a m show ?thesis by blast
qed


section \<open>The stores of pass 2\<close>

text \<open>
  Claim C10, evaluated at a buffer of 256 words with the cursor moved to its last cell:
  the capacity check passes for \<open>JMP 0\<close> at cursor 255, the synthesized MOVI is stored at
  255, and the jump word is stored at index 256, which is not below \<open>memSize\<close>.
\<close>

theorem second_word_of_jump_out_of_bounds:
  "case assemble ''.ORG 0xFF\<newline>JMP 0'' (\<lambda>_. 0) 256 of
     Inl e \<Rightarrow> e = out_of_bounds_store 256
   | Inr x \<Rightarrow> False"
  by code_simp


end
